theory Spec2Isabelle
  imports Complex_Main "HOL-Library.Product_Lexorder"
begin

section \<open>JavaScript values and the built-ins used by backend\_server.js\<close>

text \<open>
  A JavaScript Number is modelled by its exact decimal value: \<open>Fin m e\<close> stands for
  \<open>m * 10 ^ e\<close>. Rounding to a binary double, overflow to Infinity and the sign of zero
  are not modelled. A string is a list of code units below 256 (Latin-1).
\<close>

datatype jsnum = NaN | NegInf | PosInf | Fin int int

text \<open>
  The values a field of a parsed JSON recipe can hold, and \<open>undefined\<close> for an absent
  field. Arrays and nested objects as field values are outside the model.
\<close>

datatype jsval = JUndefined | JNull | JBool bool | JNum jsnum | JStr string

definition is_digit :: "char \<Rightarrow> bool" where
  "is_digit c = (c \<in> set ''0123456789'')"

definition is_hex_digit :: "char \<Rightarrow> bool" where
  "is_hex_digit c = (c \<in> set ''0123456789abcdefABCDEF'')"

text \<open>StrWhiteSpaceChar of ECMA-262, restricted to code units below 256.\<close>

definition is_js_space :: "char \<Rightarrow> bool" where
  "is_js_space c = ((of_char c :: nat) \<in> {9, 10, 11, 12, 13, 32, 160})"

definition digit_val :: "char \<Rightarrow> nat" where
  "digit_val c =
     (let n = (of_char c :: nat) in
      if 48 \<le> n \<and> n \<le> 57 then n - 48
      else if 97 \<le> n \<and> n \<le> 102 then n - 87
      else if 65 \<le> n \<and> n \<le> 70 then n - 55
      else 0)"

definition digits_value :: "nat \<Rightarrow> string \<Rightarrow> nat" where
  "digits_value R ds = foldl (\<lambda>acc c. acc * R + digit_val c) 0 ds"

definition startsWith :: "string \<Rightarrow> string \<Rightarrow> bool" where
  "startsWith s p = (take (length p) s = p)"

definition trim_start :: "string \<Rightarrow> string" where
  "trim_start s = dropWhile is_js_space s"

definition trim :: "string \<Rightarrow> string" where
  "trim s = rev (dropWhile is_js_space (rev (dropWhile is_js_space s)))"

subsection \<open>parseInt on a string, no radix argument\<close>

text \<open>
  ECMA-262 parseInt(string): skip leading white space, read a sign, strip a \<open>0x\<close>/\<open>0X\<close>
  prefix (radix 16, else radix 10), take the longest run of digits of that radix; no
  digit gives NaN. The result is NaN or an integer, modelled as \<open>int option\<close> with
  \<open>None\<close> for NaN.
\<close>

definition parseInt_str :: "string \<Rightarrow> int option" where
  "parseInt_str s =
     (let S = trim_start s;
          sign = (if startsWith S ''-'' then - 1 else (1::int));
          S1 = (if startsWith S ''-'' \<or> startsWith S ''+'' then drop 1 S else S);
          hex = (startsWith S1 ''0x'' \<or> startsWith S1 ''0X'');
          S2 = (if hex then drop 2 S1 else S1);
          Z = (if hex then takeWhile is_hex_digit S2 else takeWhile is_digit S2)
      in if Z = [] then None
         else Some (sign * int (digits_value (if hex then 16 else 10) Z)))"

subsection \<open>parseFloat on a string\<close>

text \<open>
  The exponent part \<open>e\<close>/\<open>E\<close>, optional sign, at least one digit. Returns the exponent and
  the rest; a malformed exponent part is not consumed.
\<close>

definition exponent_part :: "string \<Rightarrow> int \<times> string" where
  "exponent_part s =
     (case s of
        [] \<Rightarrow> (0, s)
      | c # t \<Rightarrow>
          if c = CHR ''e'' \<or> c = CHR ''E'' then
            (let neg = startsWith t ''-'';
                 t1 = (if startsWith t ''-'' \<or> startsWith t ''+'' then drop 1 t else t);
                 ds = takeWhile is_digit t1
             in if ds = [] then (0, s)
                else ((if neg then - int (digits_value 10 ds) else int (digits_value 10 ds)),
                      dropWhile is_digit t1))
          else (0, s))"

text \<open>
  The longest prefix that is a StrUnsignedDecimalLiteral: \<open>Infinity\<close>, or digits with an
  optional fraction and exponent, at least one digit before or after the point.
\<close>

definition unsigned_decimal_prefix :: "string \<Rightarrow> (jsnum \<times> string) option" where
  "unsigned_decimal_prefix s =
     (if startsWith s ''Infinity'' then Some (PosInf, drop 8 s)
      else
        let ip = takeWhile is_digit s;
            r1 = dropWhile is_digit s;
            has_point = startsWith r1 ''.'';
            fp = (if has_point then takeWhile is_digit (drop 1 r1) else []);
            r2 = (if has_point then dropWhile is_digit (drop 1 r1) else r1)
        in if ip = [] \<and> fp = [] then None
           else (case exponent_part r2 of
                   (ex, r3) \<Rightarrow> Some (Fin (int (digits_value 10 (ip @ fp))) (ex - int (length fp)), r3)))"

fun negate :: "jsnum \<Rightarrow> jsnum" where
  "negate NaN = NaN"
| "negate NegInf = PosInf"
| "negate PosInf = NegInf"
| "negate (Fin m e) = Fin (- m) e"

definition decimal_prefix :: "string \<Rightarrow> (jsnum \<times> string) option" where
  "decimal_prefix s =
     (if startsWith s ''-'' then map_option (\<lambda>(v, r). (negate v, r)) (unsigned_decimal_prefix (drop 1 s))
      else if startsWith s ''+'' then unsigned_decimal_prefix (drop 1 s)
      else unsigned_decimal_prefix s)"

definition parseFloat_str :: "string \<Rightarrow> jsnum" where
  "parseFloat_str s =
     (case decimal_prefix (trim_start s) of None \<Rightarrow> NaN | Some (v, r) \<Rightarrow> v)"

subsection \<open>ToNumber, isNaN, ToBoolean\<close>

text \<open>
  StringToNumber: trim both ends; the empty string is 0; otherwise the whole text must be
  a decimal literal or an unsigned \<open>0x\<close>, \<open>0o\<close> or \<open>0b\<close> integer literal, else NaN.
\<close>

definition non_decimal_literal :: "string \<Rightarrow> nat option" where
  "non_decimal_literal t =
     (let ds = drop 2 t in
      if ds = [] then None
      else if (startsWith t ''0x'' \<or> startsWith t ''0X'') \<and> list_all is_hex_digit ds
        then Some (digits_value 16 ds)
      else if (startsWith t ''0o'' \<or> startsWith t ''0O'') \<and> list_all (\<lambda>c. c \<in> set ''01234567'') ds
        then Some (digits_value 8 ds)
      else if (startsWith t ''0b'' \<or> startsWith t ''0B'') \<and> list_all (\<lambda>c. c \<in> set ''01'') ds
        then Some (digits_value 2 ds)
      else None)"

definition StringToNumber :: "string \<Rightarrow> jsnum" where
  "StringToNumber s =
     (let t = trim s in
      if t = [] then Fin 0 0
      else case non_decimal_literal t of
             Some n \<Rightarrow> Fin (int n) 0
           | None \<Rightarrow> (case decimal_prefix t of
                        Some (v, r) \<Rightarrow> if r = [] then v else NaN
                      | None \<Rightarrow> NaN))"

fun ToNumber :: "jsval \<Rightarrow> jsnum" where
  "ToNumber JUndefined = NaN"
| "ToNumber JNull = Fin 0 0"
| "ToNumber (JBool b) = (if b then Fin 1 0 else Fin 0 0)"
| "ToNumber (JNum n) = n"
| "ToNumber (JStr s) = StringToNumber s"

text \<open>The global \<open>isNaN(v)\<close>: \<open>ToNumber(v)\<close> is NaN.\<close>

definition isNaN :: "jsval \<Rightarrow> bool" where
  "isNaN v = (ToNumber v = NaN)"

text \<open>ToBoolean, as \<open>||\<close> and \<open>if\<close> apply it.\<close>

fun truthy :: "jsval \<Rightarrow> bool" where
  "truthy JUndefined = False"
| "truthy JNull = False"
| "truthy (JBool b) = b"
| "truthy (JNum NaN) = False"
| "truthy (JNum (Fin m e)) = (m \<noteq> 0)"
| "truthy (JNum n) = True"
| "truthy (JStr s) = (s \<noteq> [])"

subsection \<open>Number to string\<close>

definition digit_char :: "nat \<Rightarrow> char" where
  "digit_char n = ''0123456789'' ! n"

fun digits_of :: "nat \<Rightarrow> string" where
  "digits_of n = (if n < 10 then [digit_char n] else digits_of (n div 10) @ [digit_char (n mod 10)])"

declare digits_of.simps [simp del]

text \<open>
  The significant digits of \<open>m * 10 ^ e\<close> for \<open>m > 0\<close>: the \<open>k\<close> digits \<open>ds\<close> without
  trailing zeros and the position \<open>n\<close> of the decimal point, the value being
  \<open>0.ds * 10 ^ n\<close>.
\<close>

definition significant :: "nat \<Rightarrow> int \<Rightarrow> string \<times> int" where
  "significant m e =
     (let all_ds = digits_of m;
          tz = length (takeWhile (\<lambda>c. c = CHR ''0'') (rev all_ds));
          ds = take (length all_ds - tz) all_ds
      in (ds, int (length ds) + e + int tz))"

text \<open>Number::toString of ECMA-262 in radix 10, for a positive number.\<close>

definition positive_to_string :: "nat \<Rightarrow> int \<Rightarrow> string" where
  "positive_to_string m e =
     (case significant m e of
        (ds, n) \<Rightarrow>
          let k = int (length ds) in
          if k \<le> n \<and> n \<le> 21 then ds @ replicate (nat (n - k)) CHR ''0''
          else if 0 < n \<and> n \<le> 21 then take (nat n) ds @ ''.'' @ drop (nat n) ds
          else if - 6 < n \<and> n \<le> 0 then ''0.'' @ replicate (nat (- n)) CHR ''0'' @ ds
          else
            (let ex = (if 0 \<le> n - 1 then ''+'' else ''-'') @ digits_of (nat \<bar>n - 1\<bar>)
             in if k = 1 then ds @ ''e'' @ ex
                else take 1 ds @ ''.'' @ drop 1 ds @ ''e'' @ ex))"

fun Number_toString :: "jsnum \<Rightarrow> string" where
  "Number_toString NaN = ''NaN''"
| "Number_toString PosInf = ''Infinity''"
| "Number_toString NegInf = ''-Infinity''"
| "Number_toString (Fin m e) =
     (if m = 0 then ''0''
      else if m < 0 then ''-'' @ positive_to_string (nat (- m)) e
      else positive_to_string (nat m) e)"

fun ToString :: "jsval \<Rightarrow> string" where
  "ToString JUndefined = ''undefined''"
| "ToString JNull = ''null''"
| "ToString (JBool b) = (if b then ''true'' else ''false'')"
| "ToString (JNum n) = Number_toString n"
| "ToString (JStr s) = s"

text \<open>\<open>parseInt(v)\<close> and \<open>parseFloat(v)\<close> convert their argument to a string first.\<close>

definition parseInt :: "jsval \<Rightarrow> int option" where
  "parseInt v = parseInt_str (ToString v)"

definition parseFloat :: "jsval \<Rightarrow> jsnum" where
  "parseFloat v = parseFloat_str (ToString v)"

section \<open>The recipes table\<close>

text \<open>
  A JSON document as far as the program looks into it: an object of scalar entries, or a
  scalar. It is the shape of \<open>recipe.nutrients\<close> and of the stored JSONB column.
\<close>

datatype json = JObject "(string \<times> jsval) list" | JScalar jsval

text \<open>
  One row of \<open>recipes\<close> (CREATE TABLE, lines 29-41); \<open>None\<close> is SQL NULL. The column
  \<open>created_at\<close> is never read by the program and is left out.
\<close>

record recipe_row =
  col_id :: int
  col_cuisine :: "string option"
  col_title :: "string option"
  col_rating :: "jsnum option"
  col_prep_time :: "int option"
  col_cook_time :: "int option"
  col_total_time :: "int option"
  col_description :: "string option"
  col_nutrients :: "json option"
  col_serves :: "string option"

text \<open>The table and the next value of the sequence behind \<open>id SERIAL\<close>.\<close>

record db =
  recipes :: "recipe_row list"
  recipes_id_seq :: int

datatype pg_error = InvalidTextRepresentation | NumericValueOutOfRange
  | StringDataRightTruncation | ParameterMismatch | InvalidRowCount

text \<open>
  A value handed to \<open>pool.query\<close> as a parameter, by the kind of JavaScript value it is:
  \<open>null\<close>, a string, a Number from parseFloat, a Number from parseInt (\<open>None\<close> is NaN).
  node-postgres sends every number as its decimal text; the conversions below state
  directly which texts the column type accepts.
\<close>

datatype param = PNull | PText string | PFloat jsnum | PInt "int option"

definition int_num :: "int option \<Rightarrow> jsnum" where
  "int_num n = (case n of None \<Rightarrow> NaN | Some i \<Rightarrow> Fin i 0)"

text \<open>
  The input function of INTEGER on a text: optional white space, an optional sign, decimal
  digits, optional white space; anything else is rejected, and so is a value outside
  32 bits. (The \<open>0x\<close>, \<open>0o\<close>, \<open>0b\<close> and underscore forms of PostgreSQL 16 are not
  modelled.)
\<close>

definition is_pg_space :: "char \<Rightarrow> bool" where
  "is_pg_space c = ((of_char c :: nat) \<in> {9, 10, 11, 12, 13, 32})"

definition in_int4 :: "int \<Rightarrow> bool" where
  "in_int4 i = (- 2147483648 \<le> i \<and> i \<le> 2147483647)"

definition in_int8 :: "int \<Rightarrow> bool" where
  "in_int8 i = (- 9223372036854775808 \<le> i \<and> i \<le> 9223372036854775807)"

definition int4in :: "string \<Rightarrow> pg_error + int" where
  "int4in s =
     (let s1 = dropWhile is_pg_space s;
          neg = startsWith s1 ''-'';
          s2 = (if startsWith s1 ''-'' \<or> startsWith s1 ''+'' then drop 1 s1 else s1);
          ds = takeWhile is_digit s2;
          rest = dropWhile is_pg_space (dropWhile is_digit s2);
          v = (if neg then - int (digits_value 10 ds) else int (digits_value 10 ds))
      in if ds = [] then Inl InvalidTextRepresentation
         else if rest = [] then (if in_int4 v then Inr v else Inl NumericValueOutOfRange)
         else Inl InvalidTextRepresentation)"

text \<open>A parameter bound to a text, INTEGER, BIGINT or FLOAT position.\<close>

fun as_text :: "param \<Rightarrow> string option" where
  "as_text PNull = None"
| "as_text (PText s) = Some s"
| "as_text (PFloat x) = Some (Number_toString x)"
| "as_text (PInt n) = Some (Number_toString (int_num n))"

text \<open>
  A Number reaches an integer position as text: NaN arrives as \<open>NaN\<close>, which the integer
  types reject. The program binds only parseInt results and \<open>null\<close> to integer positions
  and only parseFloat results and \<open>null\<close> to FLOAT positions; other combinations are
  rejected here.
\<close>

fun as_int4 :: "param \<Rightarrow> pg_error + int option" where
  "as_int4 PNull = Inr None"
| "as_int4 (PInt None) = Inl InvalidTextRepresentation"
| "as_int4 (PInt (Some i)) = (if in_int4 i then Inr (Some i) else Inl NumericValueOutOfRange)"
| "as_int4 (PText s) = map_sum id Some (int4in s)"
| "as_int4 (PFloat x) = Inl InvalidTextRepresentation"

fun as_int8 :: "param \<Rightarrow> pg_error + int option" where
  "as_int8 PNull = Inr None"
| "as_int8 (PInt None) = Inl InvalidTextRepresentation"
| "as_int8 (PInt (Some i)) = (if in_int8 i then Inr (Some i) else Inl NumericValueOutOfRange)"
| "as_int8 p = Inl InvalidTextRepresentation"

text \<open>FLOAT accepts NaN and the infinities.\<close>

fun as_float8 :: "param \<Rightarrow> pg_error + jsnum option" where
  "as_float8 PNull = Inr None"
| "as_float8 (PFloat x) = Inr (Some x)"
| "as_float8 (PInt n) = Inr (Some (int_num n))"
| "as_float8 (PText s) = Inl InvalidTextRepresentation"

text \<open>
  Assignment to VARCHAR(n): a longer text is an error unless the excess is all spaces, which
  are cut off.
\<close>

definition varchar :: "nat \<Rightarrow> string option \<Rightarrow> pg_error + string option" where
  "varchar n t =
     (case t of
        None \<Rightarrow> Inr None
      | Some s \<Rightarrow>
          if length s \<le> n then Inr (Some s)
          else if list_all (\<lambda>c. c = CHR '' '') (drop n s) then Inr (Some (take n s))
          else Inl StringDataRightTruncation)"

section \<open>Ingestion: parseAndInsertRecipes\<close>

text \<open>
  A recipe object of the JSON file; an absent field reads as \<open>undefined\<close>. An entry of the
  file that is no object is outside the model.
\<close>

record recipe =
  cuisine :: jsval
  title :: jsval
  rating :: jsval
  prep_time :: jsval
  cook_time :: jsval
  total_time :: jsval
  description :: jsval
  nutrients :: json
  serves :: jsval

text \<open>Line 81: \<open>isNaN(x) || x === 'NaN' ? null : parseFloat(x)\<close>.\<close>

definition float_or_null :: "jsval \<Rightarrow> param" where
  "float_or_null x = (if isNaN x \<or> x = JStr ''NaN'' then PNull else PFloat (parseFloat x))"

text \<open>Lines 82-84: \<open>isNaN(x) || x === 'NaN' ? null : parseInt(x)\<close>.\<close>

definition int_or_null :: "jsval \<Rightarrow> param" where
  "int_or_null x = (if isNaN x \<or> x = JStr ''NaN'' then PNull else PInt (parseInt x))"

text \<open>
  Lines 100-108: \<open>x || null\<close>, which node-postgres sends as \<open>null\<close> or as the value's
  \<open>toString()\<close>.
\<close>

definition or_null :: "jsval \<Rightarrow> jsval" where
  "or_null x = (if truthy x then x else JNull)"

fun prepareValue :: "jsval \<Rightarrow> param" where
  "prepareValue JUndefined = PNull"
| "prepareValue JNull = PNull"
| "prepareValue v = PText (ToString v)"

text \<open>
  Lines 87-94: \<open>recipe.nutrients || {}\<close>, then every entry whose value is \<open>'NaN'\<close> or for
  which \<open>isNaN\<close> holds is deleted. The keys of a parsed JSON object are distinct, so
  deleting by key is filtering the entries.
\<close>

definition clean_nutrients :: "json \<Rightarrow> json" where
  "clean_nutrients n =
     (let nutrients = (case n of JScalar v \<Rightarrow> if truthy v then n else JObject [] | JObject es \<Rightarrow> n)
      in case nutrients of
           JObject es \<Rightarrow> JObject (filter (\<lambda>(key, val). \<not> (val = JStr ''NaN'' \<or> isNaN val)) es)
         | JScalar v \<Rightarrow> nutrients)"

text \<open>
  \<open>JSON.stringify\<close> followed by the JSONB input: an \<open>undefined\<close> entry is left out, and
  NaN and the infinities are written as \<open>null\<close>.
\<close>

fun json_scalar :: "jsval \<Rightarrow> jsval" where
  "json_scalar (JNum NaN) = JNull"
| "json_scalar (JNum PosInf) = JNull"
| "json_scalar (JNum NegInf) = JNull"
| "json_scalar v = v"

fun JSON_stringify :: "json \<Rightarrow> json" where
  "JSON_stringify (JObject es) =
     JObject (map (\<lambda>(k, v). (k, json_scalar v)) (filter (\<lambda>(k, v). v \<noteq> JUndefined) es))"
| "JSON_stringify (JScalar v) = JScalar (json_scalar v)"

text \<open>
  The INSERT of lines 96-109 with its nine parameters. The parameters are converted to the
  column types first; a failure leaves table and sequence as they were (in PostgreSQL a
  failed INSERT may still use up a sequence value, which is not modelled).
\<close>

definition sum_bind :: "'e + 'a \<Rightarrow> ('a \<Rightarrow> 'e + 'b) \<Rightarrow> 'e + 'b" where
  "sum_bind m f = (case m of Inl e \<Rightarrow> Inl e | Inr x \<Rightarrow> f x)"

definition insert_recipe ::
  "db \<Rightarrow> param \<Rightarrow> param \<Rightarrow> param \<Rightarrow> param \<Rightarrow> param \<Rightarrow> param \<Rightarrow> param \<Rightarrow> json \<Rightarrow> param
     \<Rightarrow> pg_error + db" where
  "insert_recipe d p1 p2 p3 p4 p5 p6 p7 p8 p9 =
     sum_bind (as_float8 p3) (\<lambda>c_rating.
     sum_bind (as_int4 p4) (\<lambda>c_prep.
     sum_bind (as_int4 p5) (\<lambda>c_cook.
     sum_bind (as_int4 p6) (\<lambda>c_total.
     sum_bind (varchar 100 (as_text p1)) (\<lambda>c_cuisine.
     sum_bind (varchar 255 (as_text p2)) (\<lambda>c_title.
     sum_bind (varchar 50 (as_text p9)) (\<lambda>c_serves.
       Inr (d\<lparr>recipes := recipes d @
                  [\<lparr>col_id = recipes_id_seq d, col_cuisine = c_cuisine, col_title = c_title,
                    col_rating = c_rating, col_prep_time = c_prep, col_cook_time = c_cook,
                    col_total_time = c_total, col_description = as_text p7,
                    col_nutrients = Some p8, col_serves = c_serves\<rparr>],
               recipes_id_seq := recipes_id_seq d + 1\<rparr>))))))))"

text \<open>The body of the loop (lines 79-117): a failed INSERT is logged and skipped.\<close>

definition insert_one :: "db \<Rightarrow> recipe \<Rightarrow> db" where
  "insert_one d r =
     (let rating' = float_or_null (rating r);
          prepTime = int_or_null (prep_time r);
          cookTime = int_or_null (cook_time r);
          totalTime = int_or_null (total_time r);
          nutrients' = clean_nutrients (nutrients r)
      in case insert_recipe d
                (prepareValue (or_null (cuisine r)))
                (prepareValue (or_null (title r)))
                rating' prepTime cookTime totalTime
                (prepareValue (or_null (description r)))
                (JSON_stringify nutrients')
                (prepareValue (or_null (serves r))) of
           Inr d' \<Rightarrow> d'
         | Inl err \<Rightarrow> d)"

text \<open>
  parseAndInsertRecipes (lines 60-125). The argument is the parsed file, the recipes in
  the order of \<open>Object.entries\<close>, or \<open>None\<close> when reading or parsing the file throws.
\<close>

definition parseAndInsertRecipes :: "recipe list option \<Rightarrow> db \<Rightarrow> db" where
  "parseAndInsertRecipes file d =
     (case file of
        None \<Rightarrow> d
      | Some recipesData \<Rightarrow>
          if int (length (recipes d)) > 0 then d
          else foldl insert_one d recipesData)"

section \<open>The queries and how PostgreSQL runs them\<close>

text \<open>
  The conditions the search handler writes into its WHERE clause, each with the number of
  its placeholder: \<open>title ILIKE $n\<close>, \<open>cuisine ILIKE $n\<close>, and a comparison of
  \<open>rating\<close>, \<open>total_time\<close> or \<open>CAST(nutrients->>'calories' AS INTEGER)\<close> with \<open>$n\<close>.
\<close>

datatype textcol = Title | Cuisine
datatype numcol = Rating | Total_time | Calories
datatype cmp = GE | LE | GT | LT | EQ
datatype cond = ILike textcol nat | Compare numcol cmp nat

fun placeholder :: "cond \<Rightarrow> nat" where
  "placeholder (ILike c i) = i"
| "placeholder (Compare c opr i) = i"

text \<open>
  A statement that mentions \<open>$1 .. $n\<close> takes exactly \<open>n\<close> parameters, and the type of each
  is inferred from a place where it occurs: a number that occurs nowhere, or a parameter
  list of another length, is an error.
\<close>

definition placeholders_ok :: "nat list \<Rightarrow> param list \<Rightarrow> bool" where
  "placeholders_ok phs ps = (set phs = {1..length ps})"

text \<open>A condition with its parameter converted to the type of the place it stands in.\<close>

datatype bound = BText textcol "string option" | BFloat cmp "jsnum option"
  | BTotal cmp "int option" | BCalories cmp "int option"

fun bind_cond :: "param list \<Rightarrow> cond \<Rightarrow> pg_error + bound" where
  "bind_cond ps (ILike c i) = Inr (BText c (as_text (ps ! (i - 1))))"
| "bind_cond ps (Compare Rating opr i) = map_sum id (BFloat opr) (as_float8 (ps ! (i - 1)))"
| "bind_cond ps (Compare Total_time opr i) = map_sum id (BTotal opr) (as_int4 (ps ! (i - 1)))"
| "bind_cond ps (Compare Calories opr i) = map_sum id (BCalories opr) (as_int4 (ps ! (i - 1)))"

fun bind_all :: "param list \<Rightarrow> cond list \<Rightarrow> pg_error + bound list" where
  "bind_all ps [] = Inr []"
| "bind_all ps (c # cs) =
     sum_bind (bind_cond ps c) (\<lambda>b. sum_bind (bind_all ps cs) (\<lambda>bs. Inr (b # bs)))"

subsection \<open>ILIKE\<close>

definition to_lower :: "char \<Rightarrow> char" where
  "to_lower c = (let n = (of_char c :: nat) in if 65 \<le> n \<and> n \<le> 90 then char_of (n + 32) else c)"

text \<open>
  LIKE: \<open>%\<close> matches any run of characters, \<open>_\<close> one character, a backslash makes the next
  pattern character literal. A pattern that ends in a lone backslash is an error in
  PostgreSQL; the patterns of this program end in \<open>%\<close>, and the case is no match here.
\<close>

fun like :: "string \<Rightarrow> string \<Rightarrow> bool" where
  "like [] s = (s = [])"
| "like (p # ps) s =
     (if p = CHR ''%'' then
        (if like ps s then True else (case s of [] \<Rightarrow> False | c # cs \<Rightarrow> like (p # ps) cs))
      else if p = CHR ''_'' then (case s of [] \<Rightarrow> False | c # cs \<Rightarrow> like ps cs)
      else if p = CHR 0x5C then
        (case ps of
           [] \<Rightarrow> False
         | q # qs \<Rightarrow> (case s of [] \<Rightarrow> False | c # cs \<Rightarrow> if c = q then like qs cs else False))
      else (case s of [] \<Rightarrow> False | c # cs \<Rightarrow> if c = p then like ps cs else False))"

text \<open>ILIKE compares the lower-cased text with the lower-cased pattern (ASCII letters).\<close>

definition ilike :: "string \<Rightarrow> string \<Rightarrow> bool" where
  "ilike text pattern = like (map to_lower pattern) (map to_lower text)"

subsection \<open>Comparisons\<close>

definition fin_value :: "int \<Rightarrow> int \<Rightarrow> rat" where
  "fin_value m e = (if 0 \<le> e then of_int (m * 10 ^ nat e) else of_int m / of_int (10 ^ nat (- e)))"

text \<open>
  The order of FLOAT values: minus infinity, the finite numbers, infinity, and NaN above
  them all and equal to itself.
\<close>

fun float_key :: "jsnum \<Rightarrow> nat \<times> rat" where
  "float_key NegInf = (0, 0)"
| "float_key (Fin m e) = (1, fin_value m e)"
| "float_key PosInf = (2, 0)"
| "float_key NaN = (3, 0)"

fun compare :: "cmp \<Rightarrow> 'a::linorder \<Rightarrow> 'a \<Rightarrow> bool" where
  "compare GE a b = (b \<le> a)"
| "compare LE a b = (a \<le> b)"
| "compare GT a b = (b < a)"
| "compare LT a b = (a < b)"
| "compare EQ a b = (a = b)"

subsection \<open>The calories expression\<close>

text \<open>
  A JSONB number as text is its plain decimal expansion. A string is its content,
  \<open>null\<close> is SQL NULL. JSON has no NaN or infinity (\<open>json_scalar\<close> stores them as
  \<open>null\<close>).
\<close>

definition positive_plain :: "nat \<Rightarrow> int \<Rightarrow> string" where
  "positive_plain m e =
     (case significant m e of
        (ds, n) \<Rightarrow>
          let k = int (length ds) in
          if k \<le> n then ds @ replicate (nat (n - k)) CHR ''0''
          else if 0 < n then take (nat n) ds @ ''.'' @ drop (nat n) ds
          else ''0.'' @ replicate (nat (- n)) CHR ''0'' @ ds)"

fun jsonb_text :: "jsval \<Rightarrow> string option" where
  "jsonb_text (JStr s) = Some s"
| "jsonb_text (JBool b) = Some (if b then ''true'' else ''false'')"
| "jsonb_text (JNum (Fin m e)) =
     Some (if m = 0 then ''0''
           else if m < 0 then ''-'' @ positive_plain (nat (- m)) e
           else positive_plain (nat m) e)"
| "jsonb_text v = None"

text \<open>\<open>nutrients->>'calories'\<close>: NULL unless the blob is an object that has the key.\<close>

definition nutrients_text :: "recipe_row \<Rightarrow> string \<Rightarrow> string option" where
  "nutrients_text r key =
     (case col_nutrients r of
        Some (JObject es) \<Rightarrow> (case map_of es key of Some v \<Rightarrow> jsonb_text v | None \<Rightarrow> None)
      | Some (JScalar v) \<Rightarrow> None
      | None \<Rightarrow> None)"

subsection \<open>Evaluating the WHERE clause\<close>

fun text_column :: "textcol \<Rightarrow> recipe_row \<Rightarrow> string option" where
  "text_column Title r = col_title r"
| "text_column Cuisine r = col_cuisine r"

text \<open>
  A condition on a row is true, not true (false or NULL), or raises: the cast of a text
  that is not an integer raises.
\<close>

fun eval_bound :: "bound \<Rightarrow> recipe_row \<Rightarrow> pg_error + bool" where
  "eval_bound (BText c p) r =
     (case text_column c r of
        None \<Rightarrow> Inr False
      | Some t \<Rightarrow> (case p of None \<Rightarrow> Inr False | Some pat \<Rightarrow> Inr (ilike t pat)))"
| "eval_bound (BFloat opr p) r =
     (case col_rating r of
        None \<Rightarrow> Inr False
      | Some x \<Rightarrow> (case p of None \<Rightarrow> Inr False | Some y \<Rightarrow> Inr (compare opr (float_key x) (float_key y))))"
| "eval_bound (BTotal opr p) r =
     (case col_total_time r of
        None \<Rightarrow> Inr False
      | Some x \<Rightarrow> (case p of None \<Rightarrow> Inr False | Some y \<Rightarrow> Inr (compare opr x y)))"
| "eval_bound (BCalories opr p) r =
     (case nutrients_text r ''calories'' of
        None \<Rightarrow> Inr False
      | Some t \<Rightarrow>
          sum_bind (int4in t) (\<lambda>x. case p of None \<Rightarrow> Inr False | Some y \<Rightarrow> Inr (compare opr x y)))"

text \<open>The conditions joined by AND are tried in order; the first that is not true ends it.\<close>

fun row_matches :: "bound list \<Rightarrow> recipe_row \<Rightarrow> pg_error + bool" where
  "row_matches [] r = Inr True"
| "row_matches (b # bs) r =
     sum_bind (eval_bound b r) (\<lambda>t. if t then row_matches bs r else Inr False)"

fun where_rows :: "bound list \<Rightarrow> recipe_row list \<Rightarrow> pg_error + recipe_row list" where
  "where_rows bs [] = Inr []"
| "where_rows bs (r # rs) =
     sum_bind (row_matches bs r) (\<lambda>t.
     sum_bind (where_rows bs rs) (\<lambda>rest. Inr (if t then r # rest else rest)))"

subsection \<open>ORDER BY rating DESC NULLS LAST, id ASC\<close>

text \<open>
  Sorting ascending by this key is the ORDER BY clause: descending on the FLOAT order (NaN
  first), NULL after every value, then the id ascending.
\<close>

definition order_key :: "recipe_row \<Rightarrow> (nat \<times> rat) \<times> int" where
  "order_key r =
     ((case col_rating r of
         None \<Rightarrow> (4, 0)
       | Some x \<Rightarrow> (3 - fst (float_key x), - snd (float_key x))),
      col_id r)"

definition order_by :: "recipe_row list \<Rightarrow> recipe_row list" where
  "order_by rows = sort_key order_key rows"

subsection \<open>The two statements\<close>

text \<open>
  \<open>SELECT * FROM recipes [WHERE conds] ORDER BY rating DESC NULLS LAST, id ASC LIMIT $lph
  OFFSET $oph\<close>. LIMIT and OFFSET are BIGINT and must not be negative; NULL is no limit and
  no offset.
\<close>

definition run_select ::
  "recipe_row list \<Rightarrow> cond list \<Rightarrow> nat \<Rightarrow> nat \<Rightarrow> param list \<Rightarrow> pg_error + recipe_row list" where
  "run_select tbl conds lph oph ps =
     (if placeholders_ok (map placeholder conds @ [lph, oph]) ps then
        sum_bind (bind_all ps conds) (\<lambda>bs.
        sum_bind (as_int8 (ps ! (lph - 1))) (\<lambda>lim.
        sum_bind (as_int8 (ps ! (oph - 1))) (\<lambda>off.
          if (case lim of None \<Rightarrow> False | Some n \<Rightarrow> n < 0) then Inl InvalidRowCount
          else if (case off of None \<Rightarrow> False | Some n \<Rightarrow> n < 0) then Inl InvalidRowCount
          else
            sum_bind (where_rows bs tbl) (\<lambda>rows.
              let skipped = (case off of None \<Rightarrow> order_by rows | Some n \<Rightarrow> drop (nat n) (order_by rows))
              in Inr (case lim of None \<Rightarrow> skipped | Some n \<Rightarrow> take (nat n) skipped)))))
      else Inl ParameterMismatch)"

text \<open>\<open>SELECT COUNT(*) FROM recipes [WHERE conds]\<close>.\<close>

definition run_count :: "recipe_row list \<Rightarrow> cond list \<Rightarrow> param list \<Rightarrow> pg_error + nat" where
  "run_count tbl conds ps =
     (if placeholders_ok (map placeholder conds) ps then
        sum_bind (bind_all ps conds) (\<lambda>bs.
        sum_bind (where_rows bs tbl) (\<lambda>rows. Inr (length rows)))
      else Inl ParameterMismatch)"

section \<open>The endpoints\<close>

text \<open>
  \<open>req.query\<close>: each parameter is absent or a string (a repeated or bracketed parameter,
  which Express parses to an array or object, is outside the model).
\<close>

record query =
  q_calories :: "string option"
  q_title :: "string option"
  q_cuisine :: "string option"
  q_total_time :: "string option"
  q_rating :: "string option"
  q_page :: "string option"
  q_limit :: "string option"

definition query_value :: "string option \<Rightarrow> jsval" where
  "query_value v = (case v of None \<Rightarrow> JUndefined | Some s \<Rightarrow> JStr s)"

record response =
  resp_page :: "int option"
  resp_limit :: "int option"
  resp_total :: nat
  resp_data :: "recipe_row list"

text \<open>Status 500 with \<open>{error: 'Internal server error'}\<close>.\<close>

datatype http_error = Internal_server_error

text \<open>Arithmetic on parseInt results; NaN (\<open>None\<close>) is contagious.\<close>

definition Math_min :: "int option \<Rightarrow> int option \<Rightarrow> int option" where
  "Math_min a b = (case a of None \<Rightarrow> None | Some x \<Rightarrow> (case b of None \<Rightarrow> None | Some y \<Rightarrow> Some (min x y)))"

definition js_minus :: "int option \<Rightarrow> int option \<Rightarrow> int option" where
  "js_minus a b = (case a of None \<Rightarrow> None | Some x \<Rightarrow> (case b of None \<Rightarrow> None | Some y \<Rightarrow> Some (x - y)))"

definition js_times :: "int option \<Rightarrow> int option \<Rightarrow> int option" where
  "js_times a b = (case a of None \<Rightarrow> None | Some x \<Rightarrow> (case b of None \<Rightarrow> None | Some y \<Rightarrow> Some (x * y)))"

text \<open>\<open>a || b\<close> on a number: NaN and 0 are falsy.\<close>

definition js_or :: "int option \<Rightarrow> int option \<Rightarrow> int option" where
  "js_or a b = (case a of None \<Rightarrow> b | Some x \<Rightarrow> if x = 0 then b else a)"

subsection \<open>GET /api/recipes (lines 130-161)\<close>

definition listing :: "db \<Rightarrow> query \<Rightarrow> http_error + response" where
  "listing d q =
     (let page = js_or (parseInt (query_value (q_page q))) (Some 1);
          limit = Math_min (js_or (parseInt (query_value (q_limit q))) (Some 10)) (Some 50);
          offset = js_times (js_minus page (Some 1)) limit
      in case run_count (recipes d) [] [] of
           Inl err \<Rightarrow> Inl Internal_server_error
         | Inr total' \<Rightarrow>
             (case run_select (recipes d) [] 1 2 [PInt limit, PInt offset] of
                Inl err \<Rightarrow> Inl Internal_server_error
              | Inr rows \<Rightarrow>
                  Inr \<lparr>resp_page = page, resp_limit = limit, resp_total = total', resp_data = rows\<rparr>))"

subsection \<open>GET /api/recipes/search (lines 164-295)\<close>

record builder =
  whereConditions :: "cond list"
  queryParams :: "param list"
  paramCount :: nat

text \<open>\<open>if (v)\<close> on a query parameter: present and not the empty string.\<close>

definition given :: "string option \<Rightarrow> bool" where
  "given v = (case v of None \<Rightarrow> False | Some s \<Rightarrow> s \<noteq> [])"

text \<open>Lines 173-183: \<open>col ILIKE $n\<close> with the parameter \<open>%value%\<close>.\<close>

definition add_like :: "textcol \<Rightarrow> string option \<Rightarrow> builder \<Rightarrow> builder" where
  "add_like col v b =
     (if given v then
        let n = paramCount b + 1 in
        b\<lparr>whereConditions := whereConditions b @ [ILike col n],
          queryParams := queryParams b @ [PText (''%'' @ the v @ ''%'')],
          paramCount := n\<rparr>
      else b)"

text \<open>
  The chain of \<open>startsWith\<close> tests that the handler repeats for rating, total\_time and
  calories: the operator, and how many characters \<open>substring\<close> drops.
\<close>

definition operator_of :: "string \<Rightarrow> cmp \<times> nat" where
  "operator_of v =
     (if startsWith v ''>='' then (GE, 2)
      else if startsWith v ''<='' then (LE, 2)
      else if startsWith v ''>'' then (GT, 1)
      else if startsWith v ''<'' then (LT, 1)
      else if startsWith v ''='' then (EQ, 1)
      else (EQ, 0))"

text \<open>
  Lines 185-206 (rating, parseFloat) and 208-229 (total\_time, parseInt): the condition and
  the parsed rest of the value are pushed whatever the parse returns.
\<close>

definition add_compare :: "numcol \<Rightarrow> (string \<Rightarrow> param) \<Rightarrow> string option \<Rightarrow> builder \<Rightarrow> builder" where
  "add_compare col parse v b =
     (if given v then
        let n = paramCount b + 1 in
        b\<lparr>whereConditions := whereConditions b @ [Compare col (fst (operator_of (the v))) n],
          queryParams := queryParams b @ [parse (drop (snd (operator_of (the v))) (the v))],
          paramCount := n\<rparr>
      else b)"

text \<open>\<open>calories.match(/\d+/)?.[0]\<close>: the first run of digits, empty when there is none.\<close>

definition first_digits :: "string \<Rightarrow> string" where
  "first_digits s = takeWhile is_digit (dropWhile (\<lambda>c. \<not> is_digit c) s)"

text \<open>
  Lines 231-250: \<open>paramCount\<close> is incremented first; condition and parameter are pushed
  only when the value has a digit.
\<close>

definition add_calories :: "string option \<Rightarrow> builder \<Rightarrow> builder" where
  "add_calories v b =
     (if given v then
        let n = paramCount b + 1;
            caloriesValue = first_digits (the v)
        in if caloriesValue \<noteq> [] then
             b\<lparr>whereConditions := whereConditions b @ [Compare Calories (fst (operator_of (the v))) n],
               queryParams := queryParams b @ [PInt (parseInt_str caloriesValue)],
               paramCount := n\<rparr>
           else b\<lparr>paramCount := n\<rparr>
      else b)"

definition build_filters :: "query \<Rightarrow> builder" where
  "build_filters q =
     add_calories (q_calories q)
       (add_compare Total_time (\<lambda>t. PInt (parseInt_str t)) (q_total_time q)
         (add_compare Rating (\<lambda>t. PFloat (parseFloat_str t)) (q_rating q)
           (add_like Cuisine (q_cuisine q)
             (add_like Title (q_title q)
               \<lparr>whereConditions = [], queryParams = [], paramCount = 0\<rparr>))))"

text \<open>The destructuring defaults \<open>page = 1, limit = 10\<close> apply to an absent parameter only.\<close>

definition or_default :: "string option \<Rightarrow> jsval \<Rightarrow> jsval" where
  "or_default v dflt = (case v of None \<Rightarrow> dflt | Some s \<Rightarrow> JStr s)"

text \<open>Lines 261-263, and the parameter list of the data query (lines 265-271).\<close>

definition pageNum :: "query \<Rightarrow> int option" where
  "pageNum q = parseInt (or_default (q_page q) (JNum (Fin 1 0)))"

definition limitNum :: "query \<Rightarrow> int option" where
  "limitNum q = Math_min (parseInt (or_default (q_limit q) (JNum (Fin 10 0)))) (Some 50)"

definition offset :: "query \<Rightarrow> int option" where
  "offset q = js_times (js_minus (pageNum q) (Some 1)) (limitNum q)"

definition data_params :: "query \<Rightarrow> param list" where
  "data_params q = queryParams (build_filters q) @ [PInt (limitNum q), PInt (offset q)]"

text \<open>
  The data query takes the placeholders \<open>paramCount + 1\<close> and \<open>paramCount + 2\<close> for LIMIT
  and OFFSET; the count query reuses the conditions with \<open>queryParams.slice(0, -2)\<close>.
\<close>

definition search :: "db \<Rightarrow> query \<Rightarrow> http_error + response" where
  "search d q =
     (let b = build_filters q in
      case run_select (recipes d) (whereConditions b) (paramCount b + 1) (paramCount b + 2)
             (data_params q) of
        Inl err \<Rightarrow> Inl Internal_server_error
      | Inr rows \<Rightarrow>
          (case run_count (recipes d) (whereConditions b)
                  (take (length (data_params q) - 2) (data_params q)) of
             Inl err \<Rightarrow> Inl Internal_server_error
           | Inr total' \<Rightarrow>
               Inr \<lparr>resp_page = pageNum q, resp_limit = limitNum q, resp_total = total',
                    resp_data = rows\<rparr>))"

section \<open>Sample inputs\<close>

definition absent_recipe :: recipe where
  "absent_recipe =
     \<lparr>cuisine = JUndefined, title = JUndefined, rating = JUndefined, prep_time = JUndefined,
      cook_time = JUndefined, total_time = JUndefined, description = JUndefined,
      nutrients = JScalar JUndefined, serves = JUndefined\<rparr>"

definition empty_db :: db where
  "empty_db = \<lparr>recipes = [], recipes_id_seq = 1\<rparr>"

definition no_query :: query where
  "no_query =
     \<lparr>q_calories = None, q_title = None, q_cuisine = None, q_total_time = None,
      q_rating = None, q_page = None, q_limit = None\<rparr>"

definition sample_row :: "int \<Rightarrow> string \<Rightarrow> jsnum option \<Rightarrow> string \<Rightarrow> recipe_row" where
  "sample_row i t r cal =
     \<lparr>col_id = i, col_cuisine = Some ''Southern Recipes'', col_title = Some t, col_rating = r,
      col_prep_time = Some 15, col_cook_time = Some 100, col_total_time = Some 115,
      col_description = None, col_nutrients = Some (JObject [(''calories'', JStr cal)]),
      col_serves = Some ''8 servings''\<rparr>"

text \<open>Five rows whose calories are plain integers, and one whose calories carry a unit.\<close>

definition sample_db :: db where
  "sample_db =
     \<lparr>recipes =
        [sample_row 1 ''Sweet Potato Pie'' (Some (Fin 48 (- 1))) ''389'',
         sample_row 2 ''Apple Pie'' (Some (Fin 4 0)) ''450'',
         sample_row 3 ''Corn Bread'' None ''200'',
         sample_row 4 ''Pecan Pie'' (Some (Fin 48 (- 1))) ''500'',
         sample_row 5 ''Gumbo'' (Some (Fin 5 0)) ''320''],
      recipes_id_seq = 6\<rparr>"

definition kcal_db :: db where
  "kcal_db =
     \<lparr>recipes = [sample_row 1 ''Sweet Potato Pie'' (Some (Fin 48 (- 1))) ''389 kcal''],
      recipes_id_seq = 2\<rparr>"

text \<open>
  The table that ingestion builds from a file of two recipes, the first rated 5, the second
  with \<open>"rating": null\<close>.
\<close>

definition null_rated_db :: db where
  "null_rated_db =
     parseAndInsertRecipes
       (Some [absent_recipe\<lparr>title := JStr ''Gumbo'', rating := JNum (Fin 5 0)\<rparr>,
              absent_recipe\<lparr>title := JStr ''Corn Bread'', rating := JNull\<rparr>])
       empty_db"

section \<open>The order of the pages, as the specification words it\<close>

text \<open>
  The rating of a row as the client reads it in the response: \<open>res.json\<close> writes it with
  \<open>JSON.stringify\<close>, so a number arrives as its value, and SQL NULL, NaN and the infinities
  all arrive as \<open>null\<close> (\<open>None\<close>).
\<close>

definition client_rating :: "recipe_row \<Rightarrow> rat option" where
  "client_rating r =
     (case col_rating r of
        None \<Rightarrow> None
      | Some x \<Rightarrow> (case x of Fin m e \<Rightarrow> Some (fin_value m e) | NaN \<Rightarrow> None
                    | NegInf \<Rightarrow> None | PosInf \<Rightarrow> None))"

text \<open>
  A row stands before another when its rating is the higher number, a row whose rating is
  \<open>null\<close> after every rated one, and among equal ratings (or two \<open>null\<close> ratings) the
  smaller id first.
\<close>

definition precedes :: "recipe_row \<Rightarrow> recipe_row \<Rightarrow> bool" where
  "precedes a b =
     (case client_rating a of
        None \<Rightarrow> (case client_rating b of None \<Rightarrow> col_id a \<le> col_id b | Some y \<Rightarrow> False)
      | Some x \<Rightarrow>
          (case client_rating b of
             None \<Rightarrow> True
           | Some y \<Rightarrow> y < x \<or> (x = y \<and> col_id a \<le> col_id b)))"

text \<open>The stored rating is a finite number or NULL.\<close>

definition number_or_null :: "recipe_row \<Rightarrow> bool" where
  "number_or_null r =
     (case col_rating r of
        None \<Rightarrow> True
      | Some x \<Rightarrow> (case x of Fin m e \<Rightarrow> True | NaN \<Rightarrow> False | NegInf \<Rightarrow> False | PosInf \<Rightarrow> False))"

section \<open>The shape of the built query\<close>

text \<open>
  The conditions carry the placeholders \<open>$1 .. $n\<close> in order, one per parameter, and
  \<open>paramCount\<close> is the number of parameters.
\<close>

definition aligned :: "builder \<Rightarrow> bool" where
  "aligned b =
     (map placeholder (whereConditions b) = map Suc [0..<length (queryParams b)] \<and>
      paramCount b = length (queryParams b))"

section \<open>The ids of the table\<close>

text \<open>
  \<open>id\<close> is the primary key, filled from the sequence: the ids are distinct and below the
  next value of the sequence.
\<close>

definition ids_below_seq :: "db \<Rightarrow> bool" where
  "ids_below_seq d =
     (distinct (map col_id (recipes d)) \<and> list_all (\<lambda>r. col_id r < recipes_id_seq d) (recipes d))"

section \<open>Helper lemmas\<close>

subsection \<open>Placeholders and parameters of the built query\<close>

lemma aligned_add_like: "aligned b \<Longrightarrow> aligned (add_like col v b)"
  by (simp add: aligned_def add_like_def Let_def)

lemma aligned_add_compare: "aligned b \<Longrightarrow> aligned (add_compare col f v b)"
  by (simp add: aligned_def add_compare_def Let_def)

lemma aligned_add_calories:
  "aligned b \<Longrightarrow>
   aligned (add_calories v b) \<or>
   (whereConditions (add_calories v b) = whereConditions b \<and>
    queryParams (add_calories v b) = queryParams b \<and>
    paramCount (add_calories v b) = Suc (length (queryParams b)))"
  by (simp add: aligned_def add_calories_def Let_def)

lemma build_filters_shape:
  "aligned (build_filters q) \<or>
   (map placeholder (whereConditions (build_filters q)) = map Suc [0..<length (queryParams (build_filters q))] \<and>
    paramCount (build_filters q) = Suc (length (queryParams (build_filters q))))"
proof -
  let ?b = "add_compare Total_time (\<lambda>t. PInt (parseInt_str t)) (q_total_time q)
         (add_compare Rating (\<lambda>t. PFloat (parseFloat_str t)) (q_rating q)
           (add_like Cuisine (q_cuisine q)
             (add_like Title (q_title q)
               \<lparr>whereConditions = [], queryParams = [], paramCount = 0\<rparr>)))"
  have "aligned \<lparr>whereConditions = [], queryParams = [], paramCount = 0\<rparr>"
    by (simp add: aligned_def)
  then have a: "aligned ?b"
    by (intro aligned_add_compare aligned_add_like)
  have eq: "build_filters q = add_calories (q_calories q) ?b"
    by (simp add: build_filters_def)
  from aligned_add_calories [OF a, of "q_calories q"] a show ?thesis
    unfolding eq aligned_def by metis
qed

lemma placeholders_ok_iff:
  "placeholders_ok phs ps \<longleftrightarrow> (\<forall>i. i \<in> set phs \<longleftrightarrow> 1 \<le> i \<and> i \<le> length ps)"
  by (simp add: placeholders_ok_def set_eq_iff)

lemma mem_Suc_upt: "i \<in> set (map Suc [0..<n]) \<longleftrightarrow> 1 \<le> i \<and> i \<le> n"
  by (cases i) auto

lemma placeholders_ok_upt:
  "placeholders_ok (map Suc [0..<n]) ps \<longleftrightarrow> length ps = n"
proof
  assume a: "placeholders_ok (map Suc [0..<n]) ps"
  show "length ps = n"
  proof (rule ccontr)
    assume ne: "length ps \<noteq> n"
    show False
    proof (cases "length ps < n")
      case True
      from a have "n \<in> set (map Suc [0..<n]) \<longleftrightarrow> 1 \<le> n \<and> n \<le> length ps"
        unfolding placeholders_ok_iff by blast
      with True show False unfolding mem_Suc_upt by arith
    next
      case False
      with ne have lt: "n < length ps" by simp
      from a have "length ps \<in> set (map Suc [0..<n]) \<longleftrightarrow> 1 \<le> length ps \<and> length ps \<le> length ps"
        unfolding placeholders_ok_iff by blast
      with lt show False unfolding mem_Suc_upt by arith
    qed
  qed
next
  assume "length ps = n"
  then show "placeholders_ok (map Suc [0..<n]) ps"
    unfolding placeholders_ok_iff mem_Suc_upt by simp
qed

lemma placeholders_ok_paged:
  "placeholders_ok (map Suc [0..<n] @ [n + 1, n + 2]) ps \<longleftrightarrow> length ps = n + 2"
proof -
  have "map Suc [0..<n] @ [n + 1, n + 2] = map Suc [0..<n + 2]"
    by simp
  then show ?thesis
    by (simp only: placeholders_ok_upt)
qed

lemma placeholders_ok_gap:
  "\<not> placeholders_ok (map Suc [0..<n] @ [Suc n + 1, Suc n + 2]) ps"
proof
  assume a: "placeholders_ok (map Suc [0..<n] @ [Suc n + 1, Suc n + 2]) ps"
  have "Suc n + 1 \<in> set (map Suc [0..<n] @ [Suc n + 1, Suc n + 2])"
    by (simp only: set_append Un_iff list.set insert_iff) simp
  with a have 1: "Suc n + 1 \<le> length ps"
    unfolding placeholders_ok_iff by blast
  have "Suc n \<notin> set (map Suc [0..<n] @ [Suc n + 1, Suc n + 2])"
    by (simp only: set_append mem_Suc_upt Un_iff list.set insert_iff empty_iff) arith
  with a have "\<not> (1 \<le> Suc n \<and> Suc n \<le> length ps)"
    unfolding placeholders_ok_iff by blast
  with 1 show False by arith
qed

subsection \<open>Running the statements\<close>

lemma where_rows_filter:
  "where_rows bs tbl = Inr rows \<Longrightarrow> rows = filter (\<lambda>r. row_matches bs r = Inr True) tbl"
proof (induction tbl arbitrary: rows)
  case Nil
  then show ?case by simp
next
  case (Cons r rs)
  then show ?case
    by (auto simp: sum_bind_def split: sum.splits if_splits)
qed

lemma where_rows_no_conditions: "where_rows [] tbl = Inr tbl"
  by (induction tbl) (simp_all add: sum_bind_def)

lemma bind_cond_take:
  "1 \<le> placeholder c \<Longrightarrow> placeholder c \<le> n \<Longrightarrow> bind_cond (take n ps) c = bind_cond ps c"
  by (induction ps c rule: bind_cond.induct) simp_all

lemma bind_all_take:
  "list_all (\<lambda>c. 1 \<le> placeholder c \<and> placeholder c \<le> n) conds \<Longrightarrow>
   bind_all (take n ps) conds = bind_all ps conds"
  by (induction conds) (simp_all add: bind_cond_take)

lemma placeholders_in_range:
  assumes "map placeholder conds = map Suc [0..<n]"
  shows "list_all (\<lambda>c. 1 \<le> placeholder c \<and> placeholder c \<le> n) conds"
proof -
  have "\<forall>i \<in> set (map placeholder conds). 1 \<le> i \<and> i \<le> n"
    using mem_Suc_upt unfolding assms by blast
  then show ?thesis
    by (simp add: list_all_iff)
qed


lemma run_select_mismatch:
  "\<not> placeholders_ok (map placeholder conds @ [lph, oph]) ps \<Longrightarrow>
   run_select tbl conds lph oph ps = Inl ParameterMismatch"
  by (simp add: run_select_def)

lemma run_select_bind_error:
  "bind_all ps conds = Inl e \<Longrightarrow> \<exists>e'. run_select tbl conds lph oph ps = Inl e'"
  by (simp add: run_select_def sum_bind_def)

lemma search_select_error:
  "run_select (recipes d) (whereConditions (build_filters q)) (paramCount (build_filters q) + 1)
     (paramCount (build_filters q) + 2) (data_params q) = Inl e \<Longrightarrow>
   search d q = Inl Internal_server_error"
  by (simp add: search_def Let_def)

lemma as_int8_PInt: "as_int8 (PInt x) = Inr y \<Longrightarrow> \<exists>i. x = Some i \<and> y = Some i"
  by (cases x) (auto split: if_splits)

lemma run_select_Inr:
  assumes "run_select tbl conds lph oph ps = Inr out"
  shows "\<exists>bs lim off. placeholders_ok (map placeholder conds @ [lph, oph]) ps \<and>
           bind_all ps conds = Inr bs \<and>
           as_int8 (ps ! (lph - 1)) = Inr lim \<and> as_int8 (ps ! (oph - 1)) = Inr off \<and>
           \<not> (case lim of None \<Rightarrow> False | Some n \<Rightarrow> n < 0) \<and>
           \<not> (case off of None \<Rightarrow> False | Some n \<Rightarrow> n < 0) \<and>
           where_rows bs tbl = Inr (filter (\<lambda>r. row_matches bs r = Inr True) tbl) \<and>
           out = (let skipped = (case off of None \<Rightarrow> order_by (filter (\<lambda>r. row_matches bs r = Inr True) tbl)
                                 | Some n \<Rightarrow> drop (nat n) (order_by (filter (\<lambda>r. row_matches bs r = Inr True) tbl)))
                  in case lim of None \<Rightarrow> skipped | Some n \<Rightarrow> take (nat n) skipped)"
proof -
  from assms have ok: "placeholders_ok (map placeholder conds @ [lph, oph]) ps"
    by (simp add: run_select_def split: if_splits)
  from assms ok obtain bs where bs: "bind_all ps conds = Inr bs"
    by (cases "bind_all ps conds") (simp_all add: run_select_def sum_bind_def)
  from assms ok bs obtain lim where lim: "as_int8 (ps ! (lph - 1)) = Inr lim"
    by (cases "as_int8 (ps ! (lph - 1))") (simp_all add: run_select_def sum_bind_def)
  from assms ok bs lim obtain off where off: "as_int8 (ps ! (oph - 1)) = Inr off"
    by (cases "as_int8 (ps ! (oph - 1))") (simp_all add: run_select_def sum_bind_def)
  from assms ok bs lim off have nl: "\<not> (case lim of None \<Rightarrow> False | Some n \<Rightarrow> n < 0)"
    by (auto simp: run_select_def sum_bind_def split: if_splits)
  from assms ok bs lim off nl have no: "\<not> (case off of None \<Rightarrow> False | Some n \<Rightarrow> n < 0)"
    by (auto simp: run_select_def sum_bind_def split: if_splits)
  from assms ok bs lim off nl no obtain rows where rows: "where_rows bs tbl = Inr rows"
    by (cases "where_rows bs tbl") (simp_all add: run_select_def sum_bind_def)
  from where_rows_filter [OF rows] have f: "rows = filter (\<lambda>r. row_matches bs r = Inr True) tbl" .
  from assms ok bs lim off nl no rows
  have "out = (let skipped = (case off of None \<Rightarrow> order_by rows | Some n \<Rightarrow> drop (nat n) (order_by rows))
               in case lim of None \<Rightarrow> skipped | Some n \<Rightarrow> take (nat n) skipped)"
    by (auto simp add: run_select_def sum_bind_def Let_def)
  with ok bs lim off nl no rows f show ?thesis
    by blast
qed

lemma run_count_Inr:
  assumes "run_count tbl conds ps = Inr n"
  shows "\<exists>bs. bind_all ps conds = Inr bs \<and> n = length (filter (\<lambda>r. row_matches bs r = Inr True) tbl)"
proof -
  from assms have ok: "placeholders_ok (map placeholder conds) ps"
    by (simp add: run_count_def split: if_splits)
  from assms ok obtain bs where bs: "bind_all ps conds = Inr bs"
    by (cases "bind_all ps conds") (simp_all add: run_count_def sum_bind_def)
  from assms ok bs obtain rows where rows: "where_rows bs tbl = Inr rows"
    by (cases "where_rows bs tbl") (simp_all add: run_count_def sum_bind_def)
  from assms ok bs rows have "n = length rows"
    by (simp add: run_count_def sum_bind_def)
  with where_rows_filter [OF rows] bs show ?thesis
    by blast
qed


lemma search_Inr:
  assumes "search d q = Inr r"
  shows "\<exists>bs l off.
           bind_all (data_params q) (whereConditions (build_filters q)) = Inr bs \<and>
           bind_all (queryParams (build_filters q)) (whereConditions (build_filters q)) = Inr bs \<and>
           limitNum q = Some l \<and> 0 \<le> l \<and> offset q = Some off \<and> 0 \<le> off \<and>
           resp_page r = pageNum q \<and> resp_limit r = limitNum q \<and>
           resp_total r = length (filter (\<lambda>row. row_matches bs row = Inr True) (recipes d)) \<and>
           resp_data r =
             take (nat l) (drop (nat off)
               (order_by (filter (\<lambda>row. row_matches bs row = Inr True) (recipes d))))"
proof -
  let ?b = "build_filters q"
  let ?n = "length (queryParams ?b)"
  let ?dp = "data_params q"
  from assms obtain rows where sel:
    "run_select (recipes d) (whereConditions ?b) (paramCount ?b + 1) (paramCount ?b + 2) ?dp = Inr rows"
    by (cases "run_select (recipes d) (whereConditions ?b) (paramCount ?b + 1) (paramCount ?b + 2) ?dp")
       (simp_all add: search_def Let_def)
  from assms sel obtain cnt where
    cnt: "run_count (recipes d) (whereConditions ?b) (take (length ?dp - 2) ?dp) = Inr cnt"
    by (cases "run_count (recipes d) (whereConditions ?b) (take (length ?dp - 2) ?dp)")
       (simp_all add: search_def Let_def)
  from assms sel cnt have r: "r = \<lparr>resp_page = pageNum q, resp_limit = limitNum q, resp_total = cnt, resp_data = rows\<rparr>"
    by (simp add: search_def Let_def)
  from run_select_Inr [OF sel] obtain bs lim off where
    ok: "placeholders_ok (map placeholder (whereConditions ?b) @ [paramCount ?b + 1, paramCount ?b + 2]) ?dp" and
    bs: "bind_all ?dp (whereConditions ?b) = Inr bs" and
    lim: "as_int8 (?dp ! (paramCount ?b + 1 - 1)) = Inr lim" and
    off: "as_int8 (?dp ! (paramCount ?b + 2 - 1)) = Inr off" and
    nl: "\<not> (case lim of None \<Rightarrow> False | Some n \<Rightarrow> n < 0)" and
    no: "\<not> (case off of None \<Rightarrow> False | Some n \<Rightarrow> n < 0)" and
    out: "rows = (let skipped = (case off of None \<Rightarrow> order_by (filter (\<lambda>r. row_matches bs r = Inr True) (recipes d))
                                 | Some n \<Rightarrow> drop (nat n) (order_by (filter (\<lambda>r. row_matches bs r = Inr True) (recipes d))))
                  in case lim of None \<Rightarrow> skipped | Some n \<Rightarrow> take (nat n) skipped)"
    by blast
  have al: "aligned ?b"
  proof (rule ccontr)
    assume "\<not> aligned ?b"
    with build_filters_shape [of q] have
      "map placeholder (whereConditions ?b) = map Suc [0..<?n]" and "paramCount ?b = Suc ?n"
      by blast+
    with ok have "placeholders_ok (map Suc [0..<?n] @ [Suc ?n + 1, Suc ?n + 2]) ?dp"
      by simp
    with placeholders_ok_gap show False
      by blast
  qed
  then have ph: "map placeholder (whereConditions ?b) = map Suc [0..<?n]" and pc: "paramCount ?b = ?n"
    by (simp_all add: aligned_def)
  have nth1: "?dp ! (paramCount ?b + 1 - 1) = PInt (limitNum q)"
    by (simp add: pc data_params_def nth_append)
  have nth2: "?dp ! (paramCount ?b + 2 - 1) = PInt (offset q)"
    by (simp add: pc data_params_def nth_append)
  from lim nth1 as_int8_PInt obtain l where l: "limitNum q = Some l" "lim = Some l"
    by metis
  from off nth2 as_int8_PInt obtain o' where o': "offset q = Some o'" "off = Some o'"
    by metis
  have tk: "take (length ?dp - 2) ?dp = queryParams ?b"
    by (simp add: data_params_def)
  have "take ?n ?dp = queryParams ?b"
    by (simp add: data_params_def)
  with bind_all_take [OF placeholders_in_range [OF ph], of ?dp]
  have same: "bind_all (queryParams ?b) (whereConditions ?b) = bind_all ?dp (whereConditions ?b)"
    by simp
  from run_count_Inr [OF cnt] bs same tk
  have total: "cnt = length (filter (\<lambda>r. row_matches bs r = Inr True) (recipes d))"
    by auto
  from out l o' have data: "rows = take (nat l) (drop (nat o')
       (order_by (filter (\<lambda>row. row_matches bs row = Inr True) (recipes d))))"
    by simp
  from nl no l o' have "0 \<le> l" "0 \<le> o'"
    by simp_all
  with bs same l o' r total data show ?thesis
    by simp
qed

lemma placeholders_ok_two: "placeholders_ok [Suc 0, Suc (Suc 0)] [p1, p2]"
  using placeholders_ok_paged [of 0 "[p1, p2]"] by simp

lemma placeholders_ok_two_num: "placeholders_ok [Suc 0, 2] [p1, p2]"
  using placeholders_ok_two [of p1 p2] by (simp add: numeral_2_eq_2)

lemma listing_Inr:
  assumes "listing d q = Inr r"
  shows "\<exists>p l. js_or (parseInt (query_value (q_page q))) (Some 1) = Some p \<and>
           Math_min (js_or (parseInt (query_value (q_limit q))) (Some 10)) (Some 50) = Some l \<and>
           0 \<le> l \<and> 0 \<le> (p - 1) * l \<and>
           resp_page r = Some p \<and> resp_limit r = Some l \<and>
           resp_total r = length (recipes d) \<and>
           resp_data r = take (nat l) (drop (nat ((p - 1) * l)) (order_by (recipes d)))"
proof -
  let ?page = "js_or (parseInt (query_value (q_page q))) (Some 1)"
  let ?limit = "Math_min (js_or (parseInt (query_value (q_limit q))) (Some 10)) (Some 50)"
  let ?offset = "js_times (js_minus ?page (Some 1)) ?limit"
  have cnt: "run_count (recipes d) [] [] = Inr (length (recipes d))"
    by (simp add: run_count_def placeholders_ok_def sum_bind_def where_rows_no_conditions)
  from assms cnt obtain rows where
    sel: "run_select (recipes d) [] 1 2 [PInt ?limit, PInt ?offset] = Inr rows"
    by (cases "run_select (recipes d) [] 1 2 [PInt ?limit, PInt ?offset]")
       (simp_all add: listing_def Let_def)
  from assms cnt sel have r: "r = \<lparr>resp_page = ?page, resp_limit = ?limit,
       resp_total = length (recipes d), resp_data = rows\<rparr>"
    by (simp add: listing_def Let_def)
  from run_select_Inr [OF sel] obtain lim off where
    lim: "as_int8 (PInt ?limit) = Inr lim" and
    off: "as_int8 (PInt ?offset) = Inr off" and
    nl: "\<not> (case lim of None \<Rightarrow> False | Some n \<Rightarrow> n < 0)" and
    no: "\<not> (case off of None \<Rightarrow> False | Some n \<Rightarrow> n < 0)" and
    out: "rows = (let skipped = (case off of None \<Rightarrow> order_by (filter (\<lambda>r. row_matches [] r = Inr True) (recipes d))
                                 | Some n \<Rightarrow> drop (nat n) (order_by (filter (\<lambda>r. row_matches [] r = Inr True) (recipes d))))
                  in case lim of None \<Rightarrow> skipped | Some n \<Rightarrow> take (nat n) skipped)"
    by auto
  from lim as_int8_PInt obtain l where l: "?limit = Some l" "lim = Some l"
    by metis
  from off as_int8_PInt obtain o' where o': "?offset = Some o'" "off = Some o'"
    by metis
  from o' l obtain p where p: "?page = Some p" "o' = (p - 1) * l"
    by (auto simp: js_times_def js_minus_def split: option.splits)
  from out l o' have "rows = take (nat l) (drop (nat o') (order_by (recipes d)))"
    by simp
  with nl no l o' p r show ?thesis
    by simp
qed


subsection \<open>Order and pages\<close>

text \<open>
  Among rows whose stored rating is a finite number or NULL, the ORDER BY clause is the
  order \<open>precedes\<close>.
\<close>

lemma order_key_precedes:
  assumes "number_or_null a" and "number_or_null b" and "order_key a \<le> order_key b"
  shows "precedes a b"
proof (cases "col_rating a")
  case None
  with assms show ?thesis
    by (cases "col_rating b")
       (auto simp: order_key_def precedes_def client_rating_def number_or_null_def
          less_eq_prod_def less_prod_def split: jsnum.splits)
next
  case a: (Some x)
  with assms(1) obtain m e where x: "x = Fin m e"
    by (cases x) (simp_all add: number_or_null_def)
  show ?thesis
  proof (cases "col_rating b")
    case None
    with a x show ?thesis
      by (simp add: precedes_def client_rating_def)
  next
    case b: (Some y)
    with assms(2) obtain m' e' where y: "y = Fin m' e'"
      by (cases y) (simp_all add: number_or_null_def)
    from assms(3) a b x y
    have "fin_value m' e' < fin_value m e \<or>
          (fin_value m e = fin_value m' e' \<and> col_id a \<le> col_id b)"
      by (auto simp: order_key_def less_eq_prod_def less_prod_def)
    with a b x y show ?thesis
      by (simp add: precedes_def client_rating_def)
  qed
qed

lemma order_by_sorted:
  assumes "list_all number_or_null rows"
  shows "sorted_wrt precedes (order_by rows)"
proof -
  have "sorted (map order_key (order_by rows))"
    by (simp add: order_by_def)
  then have s: "sorted_wrt (\<lambda>a b. order_key a \<le> order_key b) (order_by rows)"
    by (simp add: sorted_map)
  have "set (order_by rows) = set rows"
    by (simp add: order_by_def)
  with assms have n: "\<And>x. x \<in> set (order_by rows) \<Longrightarrow> number_or_null x"
    by (simp add: list_all_iff)
  show ?thesis
    by (rule sorted_wrt_mono_rel [OF _ s]) (simp add: order_key_precedes n)
qed

lemma page_sorted:
  assumes "list_all number_or_null tbl"
  shows "sorted_wrt precedes (take l (drop k (order_by (filter P tbl))))"
proof -
  from assms have "list_all number_or_null (filter P tbl)"
    by (simp add: list_all_iff)
  then show ?thesis
    by (intro sorted_wrt_take sorted_wrt_drop order_by_sorted)
qed

lemma order_by_distinct_ids:
  "distinct (map col_id tbl) \<Longrightarrow> distinct (map col_id (order_by (filter P tbl)))"
proof -
  assume "distinct (map col_id tbl)"
  then have "distinct (map col_id (filter P tbl))"
    by (simp add: distinct_map_filter)
  then show ?thesis
    by (simp add: distinct_map order_by_def)
qed

lemma pages_disjoint:
  assumes "distinct xs" and "a + l \<le> b"
  shows "set (take l (drop a xs)) \<inter> set (take l' (drop b xs)) = {}"
proof -
  have "set (take l (drop a xs)) \<subseteq> set (take b xs)"
  proof -
    have "take l (drop a xs) = drop a (take (a + l) xs)"
      by (simp add: drop_take)
    then have "set (take l (drop a xs)) \<subseteq> set (take (a + l) xs)"
      by (simp add: set_drop_subset)
    also from assms(2) have "\<dots> \<subseteq> set (take b xs)"
      by (rule set_take_subset_set_take)
    finally show ?thesis .
  qed
  moreover have "set (take l' (drop b xs)) \<subseteq> set (drop b xs)"
    by (rule set_take_subset)
  moreover from assms(1) have "set (take b xs) \<inter> set (drop b xs) = {}"
    by (rule set_take_disj_set_drop_if_distinct) simp
  ultimately show ?thesis
    by blast
qed

lemma page_offsets:
  fixes p1 p2 l :: int
  assumes "p1 < p2" "0 \<le> l" "0 \<le> (p1 - 1) * l"
  shows "nat ((p1 - 1) * l) + nat l \<le> nat ((p2 - 1) * l)"
proof -
  from assms(1) have "p1 \<le> p2 - 1" by simp
  from this assms(2) have "p1 * l \<le> (p2 - 1) * l"
    by (rule mult_right_mono)
  moreover have "(p1 - 1) * l + l = p1 * l"
    by (simp add: algebra_simps)
  ultimately have "(p1 - 1) * l + l \<le> (p2 - 1) * l"
    by simp
  with assms(2,3) show ?thesis
    by linarith
qed

lemma two_pages_disjoint:
  fixes p1 p2 l :: int
  assumes d: "distinct (map col_id rows)" and ne: "p1 \<noteq> p2" and l: "0 \<le> l"
    and o1: "0 \<le> (p1 - 1) * l" and o2: "0 \<le> (p2 - 1) * l"
  shows "set (map col_id (take (nat l) (drop (nat ((p1 - 1) * l)) rows))) \<inter>
         set (map col_id (take (nat l) (drop (nat ((p2 - 1) * l)) rows))) = {}"
proof -
  let ?xs = "map col_id rows"
  have m: "map col_id (take n (drop k rows)) = take n (drop k ?xs)" for n k
    by (simp add: take_map drop_map)
  show ?thesis
  proof (cases "p1 < p2")
    case True
    from pages_disjoint [OF d page_offsets [OF True l o1]] show ?thesis
      unfolding m .
  next
    case False
    with ne have "p2 < p1" by simp
    from pages_disjoint [OF d page_offsets [OF this l o2]] show ?thesis
      unfolding m by blast
  qed
qed


subsection \<open>The text of a number is never empty\<close>

lemma digit_char_nonzero: "0 < k \<Longrightarrow> k < 10 \<Longrightarrow> digit_char k \<noteq> CHR ''0''"
proof -
  assume "0 < k" "k < 10"
  then have "k = 1 \<or> k = 2 \<or> k = 3 \<or> k = 4 \<or> k = 5 \<or> k = 6 \<or> k = 7 \<or> k = 8 \<or> k = 9"
    by arith
  then show ?thesis
    by (auto simp: digit_char_def)
qed

lemma digits_of_nonempty: "digits_of n \<noteq> []"
  by (subst digits_of.simps) simp

lemma hd_digits_of: "0 < n \<Longrightarrow> hd (digits_of n) \<noteq> CHR ''0''"
proof (induction n rule: digits_of.induct)
  case (1 n)
  show ?case
  proof (cases "n < 10")
    case True
    with "1.prems" show ?thesis
      by (subst digits_of.simps) (simp add: digit_char_nonzero)
  next
    case False
    then have "0 < n div 10" by simp
    with 1 False have "hd (digits_of (n div 10)) \<noteq> CHR ''0''" by simp
    with False show ?thesis
      by (subst digits_of.simps) (simp add: digits_of_nonempty)
  qed
qed

lemma length_takeWhile_less: "\<exists>x \<in> set xs. \<not> P x \<Longrightarrow> length (takeWhile P xs) < length xs"
  by (induction xs) auto

lemma significant_nonempty: "0 < m \<Longrightarrow> fst (significant m e) \<noteq> []"
proof -
  assume m: "0 < m"
  let ?ds = "digits_of m"
  have "hd ?ds \<in> set (rev ?ds)"
    by (simp add: digits_of_nonempty)
  with hd_digits_of [OF m] have "\<exists>c \<in> set (rev ?ds). \<not> c = CHR ''0''"
    by blast
  from length_takeWhile_less [OF this]
  have "length (takeWhile (\<lambda>c. c = CHR ''0'') (rev ?ds)) < length ?ds"
    by simp
  then show ?thesis
    by (simp add: significant_def Let_def digits_of_nonempty)
qed

lemma positive_to_string_nonempty: "0 < m \<Longrightarrow> positive_to_string m e \<noteq> []"
proof -
  assume "0 < m"
  from significant_nonempty [OF this, of e] obtain ds n where s: "significant m e = (ds, n)" and ne: "ds \<noteq> []"
    by (cases "significant m e") auto
  show ?thesis
    unfolding positive_to_string_def s using ne by (simp add: Let_def)
qed

lemma Number_toString_nonempty: "Number_toString x \<noteq> []"
  by (cases x) (simp_all add: positive_to_string_nonempty)

lemma ToString_truthy_nonempty: "truthy v \<Longrightarrow> ToString v \<noteq> []"
  by (cases v) (simp_all add: Number_toString_nonempty)

lemma text_param_cases:
  "as_text (prepareValue (or_null v)) = (if truthy v then Some (ToString v) else None)"
  by (cases v) (simp_all add: or_null_def)

lemma varchar_text_param:
  "0 < n \<Longrightarrow> varchar n (as_text (prepareValue (or_null v))) = Inr t \<Longrightarrow>
   t \<noteq> Some [] \<and> (\<not> truthy v \<longrightarrow> t = None)"
  using ToString_truthy_nonempty [of v]
  by (auto simp: text_param_cases varchar_def split: if_splits)


subsection \<open>Ingestion keeps the ids distinct\<close>

lemma insert_recipe_ids:
  assumes "ids_below_seq d" and "insert_recipe d p1 p2 p3 p4 p5 p6 p7 p8 p9 = Inr d'"
  shows "ids_below_seq d'"
proof -
  from assms(2) obtain row where d': "d' = d\<lparr>recipes := recipes d @ [row], recipes_id_seq := recipes_id_seq d + 1\<rparr>"
    and row: "col_id row = recipes_id_seq d"
    by (auto simp: insert_recipe_def sum_bind_def split: sum.splits)
  from assms(1) have "list_all (\<lambda>r. col_id r < recipes_id_seq d + 1) (recipes d)"
    by (auto simp: ids_below_seq_def list_all_iff)
  moreover from assms(1) have "recipes_id_seq d \<notin> set (map col_id (recipes d))"
    by (auto simp: ids_below_seq_def list_all_iff)
  ultimately show ?thesis
    using assms(1) by (simp add: ids_below_seq_def d' row)
qed

lemma insert_one_ids: "ids_below_seq d \<Longrightarrow> ids_below_seq (insert_one d r)"
  by (auto simp: insert_one_def Let_def split: sum.splits dest: insert_recipe_ids)

lemma foldl_insert_one_ids: "ids_below_seq d \<Longrightarrow> ids_below_seq (foldl insert_one d rs)"
  by (induction rs arbitrary: d) (simp_all add: insert_one_ids)

lemma ingestion_ids_distinct:
  "ids_below_seq d \<Longrightarrow> distinct (map col_id (recipes (parseAndInsertRecipes file d)))"
proof -
  assume a: "ids_below_seq d"
  then have "ids_below_seq (parseAndInsertRecipes file d)"
    by (simp add: parseAndInsertRecipes_def foldl_insert_one_ids split: option.splits)
  then show ?thesis
    by (simp add: ids_below_seq_def)
qed

lemma empty_db_ids: "ids_below_seq empty_db"
  by (simp add: ids_below_seq_def empty_db_def)

subsection \<open>Every calories value that is not empty and has no digit makes the search fail\<close>

lemma calories_without_digit_fails:
  assumes "given (q_calories q)" and "first_digits (the (q_calories q)) = []"
  shows "search d q = Inl Internal_server_error"
proof -
  let ?b = "add_compare Total_time (\<lambda>t. PInt (parseInt_str t)) (q_total_time q)
         (add_compare Rating (\<lambda>t. PFloat (parseFloat_str t)) (q_rating q)
           (add_like Cuisine (q_cuisine q)
             (add_like Title (q_title q)
               \<lparr>whereConditions = [], queryParams = [], paramCount = 0\<rparr>)))"
  have "aligned \<lparr>whereConditions = [], queryParams = [], paramCount = 0\<rparr>"
    by (simp add: aligned_def)
  then have a: "aligned ?b"
    by (intro aligned_add_compare aligned_add_like)
  have eq: "build_filters q = ?b\<lparr>paramCount := paramCount ?b + 1\<rparr>"
    using assms by (simp add: build_filters_def add_calories_def Let_def)
  let ?n = "length (queryParams (build_filters q))"
  from a eq have sh: "map placeholder (whereConditions (build_filters q)) = map Suc [0..<?n]"
      "paramCount (build_filters q) = Suc ?n"
    by (simp_all add: aligned_def)
  have "\<not> placeholders_ok (map placeholder (whereConditions (build_filters q))
       @ [paramCount (build_filters q) + 1, paramCount (build_filters q) + 2]) (data_params q)"
    unfolding sh by (rule placeholders_ok_gap)
  from run_select_mismatch [OF this] show ?thesis
    by (rule search_select_error)
qed

section \<open>Ingestion\<close>

text \<open>
  C8. Ingestion against a table that holds at least one row changes nothing, neither the
  rows nor the sequence; so a second run, on any file, against a table that a first run
  populated leaves the table and its number of rows as the first run left them.
\<close>

theorem ingestion_run_once:
  "(recipes d \<noteq> [] \<longrightarrow> parseAndInsertRecipes file d = d) \<and>
   (recipes (parseAndInsertRecipes file d0) \<noteq> [] \<longrightarrow>
      parseAndInsertRecipes file' (parseAndInsertRecipes file d0) = parseAndInsertRecipes file d0 \<and>
      length (recipes (parseAndInsertRecipes file' (parseAndInsertRecipes file d0))) =
      length (recipes (parseAndInsertRecipes file d0)))"
  by (simp add: parseAndInsertRecipes_def split: option.splits)

theorem ingestion_run_once_witness:
  "recipes sample_db \<noteq> [] \<and>
   parseAndInsertRecipes (Some [absent_recipe\<lparr>title := JStr ''Sweet Potato Pie''\<rparr>]) sample_db
     = sample_db \<and>
   recipes (parseAndInsertRecipes (Some [absent_recipe\<lparr>title := JStr ''Sweet Potato Pie''\<rparr>]) empty_db)
     \<noteq> [] \<and>
   length (recipes (parseAndInsertRecipes (Some [absent_recipe\<lparr>title := JStr ''Sweet Potato Pie''\<rparr>])
      (parseAndInsertRecipes (Some [absent_recipe\<lparr>title := JStr ''Sweet Potato Pie''\<rparr>]) empty_db)))
     = 1"
proof -
  let ?f = "Some [absent_recipe\<lparr>title := JStr ''Sweet Potato Pie''\<rparr>]"
  have h1: "recipes sample_db \<noteq> []"
    by (simp add: sample_db_def)
  have h2: "length (recipes (parseAndInsertRecipes ?f empty_db)) = 1"
    by code_simp
  then have h3: "recipes (parseAndInsertRecipes ?f empty_db) \<noteq> []"
    by auto
  from ingestion_run_once [of sample_db ?f empty_db ?f] h1 h2 h3 show ?thesis
    by simp
qed

text \<open>
  C3. The code at the input of the claim: a recipe whose nutrients are
  \<open>{"calories": "389 kcal"}\<close> is stored with the empty object \<open>{}\<close>, because
  \<open>isNaN('389 kcal')\<close> holds and the entry is deleted.
\<close>

theorem unit_suffixed_nutrient_removed:
  "map col_nutrients (recipes (parseAndInsertRecipes
      (Some [absent_recipe\<lparr>nutrients := JObject [(''calories'', JStr ''389 kcal'')]\<rparr>]) empty_db))
   = [Some (JObject [])]"
  by code_simp

text \<open>
  C9. The code at a recipe whose rating is JSON \<open>null\<close>: \<open>isNaN(null)\<close> is false, so
  the rating is \<open>parseFloat(null)\<close>, which is NaN, and the row is stored with the rating NaN.
\<close>

theorem null_rating_stored_as_NaN:
  "map col_rating (recipes (parseAndInsertRecipes (Some [absent_recipe\<lparr>rating := JNull\<rparr>]) empty_db))
   = [Some NaN]"
  by code_simp

text \<open>
  C10. The value bound for a text field is never the empty string; a recipe whose cuisine,
  title, description or serves is the empty string is inserted exactly as the recipe
  without that field; and a row that ingestion inserts holds NULL in such a column and the
  empty text in none of the four.
\<close>

theorem empty_text_field_stored_as_null:
  "or_null v \<noteq> JStr [] \<and>
   insert_one d (r\<lparr>cuisine := JStr []\<rparr>) = insert_one d (r\<lparr>cuisine := JUndefined\<rparr>) \<and>
   insert_one d (r\<lparr>title := JStr []\<rparr>) = insert_one d (r\<lparr>title := JUndefined\<rparr>) \<and>
   insert_one d (r\<lparr>description := JStr []\<rparr>) = insert_one d (r\<lparr>description := JUndefined\<rparr>) \<and>
   insert_one d (r\<lparr>serves := JStr []\<rparr>) = insert_one d (r\<lparr>serves := JUndefined\<rparr>) \<and>
   (insert_one d r = d \<or>
    (\<exists>row. recipes (insert_one d r) = recipes d @ [row] \<and>
       (cuisine r = JStr [] \<longrightarrow> col_cuisine row = None) \<and>
       (title r = JStr [] \<longrightarrow> col_title row = None) \<and>
       (description r = JStr [] \<longrightarrow> col_description row = None) \<and>
       (serves r = JStr [] \<longrightarrow> col_serves row = None) \<and>
       col_cuisine row \<noteq> Some [] \<and> col_title row \<noteq> Some [] \<and>
       col_description row \<noteq> Some [] \<and> col_serves row \<noteq> Some []))"
proof -
  have 1: "or_null v \<noteq> JStr []"
    by (cases v) (auto simp: or_null_def)
  have 2: "or_null (JStr []) = or_null JUndefined"
    by (simp add: or_null_def)
  have 3: "insert_one d r = d \<or>
    (\<exists>row. recipes (insert_one d r) = recipes d @ [row] \<and>
       (cuisine r = JStr [] \<longrightarrow> col_cuisine row = None) \<and>
       (title r = JStr [] \<longrightarrow> col_title row = None) \<and>
       (description r = JStr [] \<longrightarrow> col_description row = None) \<and>
       (serves r = JStr [] \<longrightarrow> col_serves row = None) \<and>
       col_cuisine row \<noteq> Some [] \<and> col_title row \<noteq> Some [] \<and>
       col_description row \<noteq> Some [] \<and> col_serves row \<noteq> Some [])"
  proof (cases "insert_recipe d (prepareValue (or_null (cuisine r))) (prepareValue (or_null (title r)))
                (float_or_null (rating r)) (int_or_null (prep_time r)) (int_or_null (cook_time r))
                (int_or_null (total_time r)) (prepareValue (or_null (description r)))
                (JSON_stringify (clean_nutrients (nutrients r))) (prepareValue (or_null (serves r)))")
    case (Inl e)
    then show ?thesis
      by (simp add: insert_one_def Let_def)
  next
    case (Inr d')
    then obtain c_cuisine c_title c_serves c_rating c_prep c_cook c_total where
      vc: "varchar 100 (as_text (prepareValue (or_null (cuisine r)))) = Inr c_cuisine" and
      vt: "varchar 255 (as_text (prepareValue (or_null (title r)))) = Inr c_title" and
      vs: "varchar 50 (as_text (prepareValue (or_null (serves r)))) = Inr c_serves" and
      d': "d' = d\<lparr>recipes := recipes d @
                  [\<lparr>col_id = recipes_id_seq d, col_cuisine = c_cuisine, col_title = c_title,
                    col_rating = c_rating, col_prep_time = c_prep, col_cook_time = c_cook,
                    col_total_time = c_total, col_description = as_text (prepareValue (or_null (description r))),
                    col_nutrients = Some (JSON_stringify (clean_nutrients (nutrients r))), col_serves = c_serves\<rparr>],
               recipes_id_seq := recipes_id_seq d + 1\<rparr>"
      by (auto simp: insert_recipe_def sum_bind_def split: sum.splits)
    have desc: "as_text (prepareValue (or_null (description r))) \<noteq> Some [] \<and>
        (description r = JStr [] \<longrightarrow> as_text (prepareValue (or_null (description r))) = None)"
      using ToString_truthy_nonempty [of "description r"] by (auto simp: text_param_cases)
    from Inr have "insert_one d r = d'"
      by (simp add: insert_one_def Let_def)
    with d' varchar_text_param [OF _ vc] varchar_text_param [OF _ vt] varchar_text_param [OF _ vs] desc
    show ?thesis
      by auto
  qed
  from 1 2 3 show ?thesis
    by (simp add: insert_one_def)
qed

theorem empty_text_field_stored_as_null_witness:
  "insert_one empty_db (absent_recipe\<lparr>cuisine := JStr [], title := JStr ''Apple Pie''\<rparr>) \<noteq> empty_db \<and>
   map col_cuisine
     (recipes (insert_one empty_db (absent_recipe\<lparr>cuisine := JStr [], title := JStr ''Apple Pie''\<rparr>)))
     = [None]"
proof -
  let ?r = "absent_recipe\<lparr>cuisine := JStr [], title := JStr ''Apple Pie''\<rparr>"
  have ne: "insert_one empty_db ?r \<noteq> empty_db"
    by code_simp
  have c: "cuisine ?r = JStr []"
    by simp
  from empty_text_field_stored_as_null [of JNull empty_db ?r] ne c
  obtain row where "recipes (insert_one empty_db ?r) = recipes empty_db @ [row]" and "col_cuisine row = None"
    by blast
  then have "map col_cuisine (recipes (insert_one empty_db ?r)) = [None]"
    by (simp add: empty_db_def)
  with ne show ?thesis
    by simp
qed

section \<open>Search\<close>

text \<open>
  C1. The code at unparseable filter values: for \<open>rating=abc\<close> the condition
  \<open>rating = $1\<close> is in the predicate with the parameter NaN, and for \<open>total_time=abc\<close>
  the request fails with status 500 on every table, NaN being no INTEGER.
\<close>

theorem unparseable_filter_kept_in_predicate:
  "whereConditions (build_filters (no_query\<lparr>q_rating := Some ''abc''\<rparr>)) = [Compare Rating EQ 1] \<and>
   queryParams (build_filters (no_query\<lparr>q_rating := Some ''abc''\<rparr>)) = [PFloat NaN] \<and>
   search d (no_query\<lparr>q_total_time := Some ''abc''\<rparr>) = Inl Internal_server_error"
proof -
  let ?q = "no_query\<lparr>q_total_time := Some ''abc''\<rparr>"
  have r: "build_filters (no_query\<lparr>q_rating := Some ''abc''\<rparr>)
        = \<lparr>whereConditions = [Compare Rating EQ 1], queryParams = [PFloat NaN], paramCount = 1\<rparr>"
    by code_simp
  have t: "build_filters ?q
        = \<lparr>whereConditions = [Compare Total_time EQ 1], queryParams = [PInt None], paramCount = 1\<rparr>"
    by code_simp
  have "bind_all (data_params ?q) (whereConditions (build_filters ?q)) = Inl InvalidTextRepresentation"
    by (simp add: t data_params_def sum_bind_def)
  from run_select_bind_error [OF this]
  have "search d ?q = Inl Internal_server_error"
    using search_select_error by blast
  with r show ?thesis
    by simp
qed

text \<open>
  C2. The code at the scenario of the claim: against a row whose nutrients are
  \<open>{"calories": "389 kcal"}\<close>, a search with \<open>calories=<=400\<close> fails with status 500,
  because the stored text itself is cast to INTEGER.
\<close>

theorem calories_search_fails_on_unit_suffix:
  "search kcal_db (no_query\<lparr>q_calories := Some ''<=400''\<rparr>) = Inl Internal_server_error"
  by code_simp

text \<open>
  C4. The code at a calories value without digits: \<open>paramCount\<close> has been incremented,
  the data query names \<open>$2\<close> and \<open>$3\<close> with two parameters, and the request fails with
  status 500 on every table.
\<close>

theorem digitless_calories_fails:
  "search d (no_query\<lparr>q_calories := Some ''abc''\<rparr>) = Inl Internal_server_error"
proof -
  let ?q = "no_query\<lparr>q_calories := Some ''abc''\<rparr>"
  have b: "build_filters ?q = \<lparr>whereConditions = [], queryParams = [], paramCount = 1\<rparr>"
    by code_simp
  have "\<not> placeholders_ok (map Suc [0..<0] @ [Suc 0 + 1, Suc 0 + 2]) (data_params ?q)"
    by (rule placeholders_ok_gap)
  then have "\<not> placeholders_ok (map placeholder (whereConditions (build_filters ?q))
       @ [paramCount (build_filters ?q) + 1, paramCount (build_filters ?q) + 2]) (data_params ?q)"
    by (simp add: b)
  from run_select_mismatch [OF this] show ?thesis
    by (rule search_select_error)
qed

text \<open>
  C5. The code at an invalid page and an invalid limit: the search handler has no fallback,
  \<open>parseInt('abc')\<close> is NaN, NaN reaches LIMIT or OFFSET and the request fails with status
  500 on every table; the listing handler falls back to page 1 and limit 10 on the same
  values.
\<close>

theorem search_lacks_pagination_fallback:
  "pageNum (no_query\<lparr>q_page := Some ''abc''\<rparr>) = None \<and>
   search d (no_query\<lparr>q_page := Some ''abc''\<rparr>) = Inl Internal_server_error \<and>
   limitNum (no_query\<lparr>q_limit := Some ''abc''\<rparr>) = None \<and>
   search d (no_query\<lparr>q_limit := Some ''abc''\<rparr>) = Inl Internal_server_error \<and>
   map_sum id resp_page (listing d (no_query\<lparr>q_page := Some ''abc''\<rparr>)) = Inr (Some 1) \<and>
   map_sum id resp_limit (listing d (no_query\<lparr>q_limit := Some ''abc''\<rparr>)) = Inr (Some 10)"
proof -
  let ?qp = "no_query\<lparr>q_page := Some ''abc''\<rparr>"
  let ?ql = "no_query\<lparr>q_limit := Some ''abc''\<rparr>"
  have pn: "pageNum ?qp = None" and ln: "limitNum ?ql = None"
    by code_simp+
  have bp: "build_filters ?qp = \<lparr>whereConditions = [], queryParams = [], paramCount = 0\<rparr>"
    and bl: "build_filters ?ql = \<lparr>whereConditions = [], queryParams = [], paramCount = 0\<rparr>"
    by code_simp+
  have sp: "search d ?qp = Inl Internal_server_error"
  proof (cases "search d ?qp")
    case (Inl e)
    then show ?thesis by (cases e) simp
  next
    case (Inr r)
    from search_Inr [OF this] pn show ?thesis
      by (auto simp: offset_def js_times_def js_minus_def)
  qed
  have sl: "search d ?ql = Inl Internal_server_error"
  proof (cases "search d ?ql")
    case (Inl e)
    then show ?thesis by (cases e) simp
  next
    case (Inr r)
    from search_Inr [OF this] ln show ?thesis
      by auto
  qed
  have vp: "js_or (parseInt (query_value (q_page ?qp))) (Some 1) = Some 1"
      "Math_min (js_or (parseInt (query_value (q_limit ?qp))) (Some 10)) (Some 50) = Some 10"
    by code_simp+
  have vl: "js_or (parseInt (query_value (q_page ?ql))) (Some 1) = Some 1"
      "Math_min (js_or (parseInt (query_value (q_limit ?ql))) (Some 10)) (Some 50) = Some 10"
    by code_simp+
  have sel: "run_select tbl [] (Suc 0) 2 [PInt (Some 10), PInt (Some 0)]
      = Inr (take 10 (order_by tbl))" for tbl
    by (simp add: run_select_def placeholders_ok_two_num sum_bind_def in_int8_def
          where_rows_no_conditions)
  have cnt: "run_count tbl [] [] = Inr (length tbl)" for tbl
    by (simp add: run_count_def placeholders_ok_def sum_bind_def where_rows_no_conditions)
  have lp: "map_sum id resp_page (listing d ?qp) = Inr (Some 1)"
    unfolding listing_def vp by (simp add: js_times_def js_minus_def sel cnt Let_def)
  have ll: "map_sum id resp_limit (listing d ?ql) = Inr (Some 10)"
    unfolding listing_def vl by (simp add: js_times_def js_minus_def sel cnt Let_def)
  from pn ln sp sl lp ll show ?thesis
    by simp
qed

subsection \<open>What holds of the order and of the pages\<close>

text \<open>
  On a table whose stored ratings are finite numbers or NULL, the rows of every successful
  Listing or Search response stand in the order \<open>precedes\<close>, the same for both endpoints.
  When the ids of the table are distinct (\<open>id\<close> is the primary key), two successful
  responses to the same request but for the page parameter, with different page numbers,
  share no row id, whatever the ratings.
\<close>

lemma pages_ordered_without_NaN:
  "(list_all number_or_null (recipes d) \<and> listing d q = Inr r
      \<longrightarrow> sorted_wrt precedes (resp_data r)) \<and>
   (list_all number_or_null (recipes d) \<and> search d q = Inr r
      \<longrightarrow> sorted_wrt precedes (resp_data r)) \<and>
   (distinct (map col_id (recipes d)) \<and>
    listing d q = Inr r1 \<and> listing d (q\<lparr>q_page := p\<rparr>) = Inr r2 \<and> resp_page r1 \<noteq> resp_page r2
      \<longrightarrow> set (map col_id (resp_data r1)) \<inter> set (map col_id (resp_data r2)) = {}) \<and>
   (distinct (map col_id (recipes d)) \<and>
    search d q = Inr r1 \<and> search d (q\<lparr>q_page := p\<rparr>) = Inr r2 \<and> resp_page r1 \<noteq> resp_page r2
      \<longrightarrow> set (map col_id (resp_data r1)) \<inter> set (map col_id (resp_data r2)) = {})"
proof (intro conjI impI)
  assume a: "list_all number_or_null (recipes d) \<and> listing d q = Inr r"
  then have n: "list_all number_or_null (recipes d)" and l: "listing d q = Inr r"
    by simp_all
  from listing_Inr [OF l] obtain l' k where
    "resp_data r = take l' (drop k (order_by (recipes d)))"
    by auto
  with page_sorted [OF n, of l' k "\<lambda>r. True"] show "sorted_wrt precedes (resp_data r)"
    by simp
next
  assume a: "list_all number_or_null (recipes d) \<and> search d q = Inr r"
  then have n: "list_all number_or_null (recipes d)" and s: "search d q = Inr r"
    by simp_all
  from search_Inr [OF s] obtain bs l' k where
    "resp_data r = take l' (drop k
       (order_by (filter (\<lambda>row. row_matches bs row = Inr True) (recipes d))))"
    by blast
  with page_sorted [OF n] show "sorted_wrt precedes (resp_data r)"
    by simp
next
  assume a: "distinct (map col_id (recipes d)) \<and>
    listing d q = Inr r1 \<and> listing d (q\<lparr>q_page := p\<rparr>) = Inr r2 \<and> resp_page r1 \<noteq> resp_page r2"
  then have dist: "distinct (map col_id (recipes d))" and ne: "resp_page r1 \<noteq> resp_page r2"
    by simp_all
  from a listing_Inr [of d q r1] obtain p1 l1 where
    1: "Math_min (js_or (parseInt (query_value (q_limit q))) (Some 10)) (Some 50) = Some l1"
       "0 \<le> l1" "0 \<le> (p1 - 1) * l1" "resp_page r1 = Some p1"
       "resp_data r1 = take (nat l1) (drop (nat ((p1 - 1) * l1)) (order_by (recipes d)))"
    by auto
  from a listing_Inr [of d "q\<lparr>q_page := p\<rparr>" r2] obtain p2 l2 where
    2: "Math_min (js_or (parseInt (query_value (q_limit q))) (Some 10)) (Some 50) = Some l2"
       "0 \<le> l2" "0 \<le> (p2 - 1) * l2" "resp_page r2 = Some p2"
       "resp_data r2 = take (nat l2) (drop (nat ((p2 - 1) * l2)) (order_by (recipes d)))"
    by auto
  from 1 2 have l: "l2 = l1" by simp
  from ne 1 2 have pne: "p1 \<noteq> p2" by simp
  from order_by_distinct_ids [OF dist, of "\<lambda>r. True"] have "distinct (map col_id (order_by (recipes d)))"
    by simp
  from two_pages_disjoint [OF this pne 1(2) 1(3)] 2(3) l 1(5) 2(5)
  show "set (map col_id (resp_data r1)) \<inter> set (map col_id (resp_data r2)) = {}"
    by simp
next
  assume a: "distinct (map col_id (recipes d)) \<and>
    search d q = Inr r1 \<and> search d (q\<lparr>q_page := p\<rparr>) = Inr r2 \<and> resp_page r1 \<noteq> resp_page r2"
  then have dist: "distinct (map col_id (recipes d))" and ne: "resp_page r1 \<noteq> resp_page r2"
    by simp_all
  let ?q2 = "q\<lparr>q_page := p\<rparr>"
  have b: "build_filters ?q2 = build_filters q"
    by (simp add: build_filters_def)
  have lq: "limitNum ?q2 = limitNum q"
    by (simp add: limitNum_def)
  from a search_Inr [of d q r1] obtain bs1 l1 o1 where
    1: "bind_all (queryParams (build_filters q)) (whereConditions (build_filters q)) = Inr bs1"
       "limitNum q = Some l1" "0 \<le> l1" "offset q = Some o1" "0 \<le> o1" "resp_page r1 = pageNum q"
       "resp_data r1 = take (nat l1) (drop (nat o1)
          (order_by (filter (\<lambda>row. row_matches bs1 row = Inr True) (recipes d))))"
    by auto
  from a search_Inr [of d ?q2 r2] obtain bs2 l2 o2 where
    2: "bind_all (queryParams (build_filters ?q2)) (whereConditions (build_filters ?q2)) = Inr bs2"
       "limitNum ?q2 = Some l2" "0 \<le> l2" "offset ?q2 = Some o2" "0 \<le> o2" "resp_page r2 = pageNum ?q2"
       "resp_data r2 = take (nat l2) (drop (nat o2)
          (order_by (filter (\<lambda>row. row_matches bs2 row = Inr True) (recipes d))))"
    by auto
  from 1(1) 2(1) b have bs: "bs2 = bs1" by simp
  from 1(2) 2(2) lq have l: "l2 = l1" by simp
  from 1(2,4) obtain p1 where p1: "pageNum q = Some p1" "o1 = (p1 - 1) * l1"
    by (auto simp: offset_def js_times_def js_minus_def split: option.splits)
  from 2(2,4) l obtain p2 where p2: "pageNum ?q2 = Some p2" "o2 = (p2 - 1) * l1"
    by (auto simp: offset_def js_times_def js_minus_def split: option.splits)
  from ne 1(6) 2(6) p1 p2 have pne: "p1 \<noteq> p2" by simp
  from 1(5) p1 have o1: "0 \<le> (p1 - 1) * l1" by simp
  from 2(5) p2 have o2: "0 \<le> (p2 - 1) * l1" by simp
  from two_pages_disjoint [OF order_by_distinct_ids [OF dist] pne 1(3) o1 o2] 1(7) 2(7) bs l p1 p2
  show "set (map col_id (resp_data r1)) \<inter> set (map col_id (resp_data r2)) = {}"
    by simp
qed

text \<open>
  The lemma on the five sample rows: the pages of limit 2 are in order and share no id.
\<close>

lemma pages_ordered_without_NaN_sample:
  "\<exists>l1 l2 s1 s2.
     distinct (map col_id (recipes sample_db)) \<and> list_all number_or_null (recipes sample_db) \<and>
     listing sample_db (no_query\<lparr>q_title := Some ''pie'', q_limit := Some ''2''\<rparr>) = Inr l1 \<and>
     listing sample_db (no_query\<lparr>q_title := Some ''pie'', q_limit := Some ''2'', q_page := Some ''2''\<rparr>) = Inr l2 \<and>
     search sample_db (no_query\<lparr>q_title := Some ''pie'', q_limit := Some ''2''\<rparr>) = Inr s1 \<and>
     search sample_db (no_query\<lparr>q_title := Some ''pie'', q_limit := Some ''2'', q_page := Some ''2''\<rparr>) = Inr s2 \<and>
     map col_id (resp_data l1) = [5, 1] \<and> map col_id (resp_data l2) = [4, 2] \<and>
     map col_id (resp_data s1) = [1, 4] \<and> map col_id (resp_data s2) = [2] \<and>
     sorted_wrt precedes (resp_data l1) \<and> sorted_wrt precedes (resp_data s1) \<and>
     set (map col_id (resp_data l1)) \<inter> set (map col_id (resp_data l2)) = {} \<and>
     set (map col_id (resp_data s1)) \<inter> set (map col_id (resp_data s2)) = {}"
proof -
  let ?q = "no_query\<lparr>q_title := Some ''pie'', q_limit := Some ''2''\<rparr>"
  let ?p = "Some ''2''"
  let ?f = "\<lambda>r. (resp_page r, map col_id (resp_data r))"
  have "map_sum id ?f (listing sample_db ?q) = Inr (Some 1, [5, 1])"
    by code_simp
  then obtain l1 where l1: "listing sample_db ?q = Inr l1" "resp_page l1 = Some 1"
      "map col_id (resp_data l1) = [5, 1]"
    by (cases "listing sample_db ?q") auto
  have "map_sum id ?f (listing sample_db (?q\<lparr>q_page := ?p\<rparr>)) = Inr (Some 2, [4, 2])"
    by code_simp
  then obtain l2 where l2: "listing sample_db (?q\<lparr>q_page := ?p\<rparr>) = Inr l2" "resp_page l2 = Some 2"
      "map col_id (resp_data l2) = [4, 2]"
    by (cases "listing sample_db (?q\<lparr>q_page := ?p\<rparr>)") auto
  have "map_sum id ?f (search sample_db ?q) = Inr (Some 1, [1, 4])"
    by code_simp
  then obtain s1 where s1: "search sample_db ?q = Inr s1" "resp_page s1 = Some 1"
      "map col_id (resp_data s1) = [1, 4]"
    by (cases "search sample_db ?q") auto
  have "map_sum id ?f (search sample_db (?q\<lparr>q_page := ?p\<rparr>)) = Inr (Some 2, [2])"
    by code_simp
  then obtain s2 where s2: "search sample_db (?q\<lparr>q_page := ?p\<rparr>) = Inr s2" "resp_page s2 = Some 2"
      "map col_id (resp_data s2) = [2]"
    by (cases "search sample_db (?q\<lparr>q_page := ?p\<rparr>)") auto
  have dist: "distinct (map col_id (recipes sample_db))"
    by (simp add: sample_db_def sample_row_def)
  have num: "list_all number_or_null (recipes sample_db)"
    by (simp add: sample_db_def sample_row_def number_or_null_def)
  from pages_ordered_without_NaN [of sample_db ?q l1 l1 ?p l2] l1 l2 dist num
  have a: "sorted_wrt precedes (resp_data l1)"
      "set (map col_id (resp_data l1)) \<inter> set (map col_id (resp_data l2)) = {}"
    by simp_all
  from pages_ordered_without_NaN [of sample_db ?q s1 s1 ?p s2] s1 s2 dist num
  have b: "sorted_wrt precedes (resp_data s1)"
      "set (map col_id (resp_data s1)) \<inter> set (map col_id (resp_data s2)) = {}"
    by simp_all
  from l1(1,3) l2(1,3) s1(1,3) s2(1,3) dist num a b show ?thesis
    by (intro exI [of _ l1] exI [of _ l2] exI [of _ s1] exI [of _ s2] conjI)
qed

text \<open>
  C6. The code at a table that ingestion builds from a recipe rated 5 and a recipe with
  \<open>"rating": null\<close>: the second is stored with the rating NaN, which
  \<open>ORDER BY rating DESC NULLS LAST\<close> puts before every number. Listing and Search return
  the row whose rating reads \<open>null\<close> first and the row rated 5 after it, so the rows are
  not in the order rating descending with \<open>null\<close> ratings last.
\<close>

theorem null_rated_row_listed_first:
  "map col_rating (recipes null_rated_db) = [Some (Fin 5 0), Some NaN] \<and>
   map_sum id (\<lambda>r. map (\<lambda>row. (col_id row, client_rating row)) (resp_data r))
     (listing null_rated_db no_query) = Inr [(2, None), (1, Some 5)] \<and>
   map_sum id (\<lambda>r. map (\<lambda>row. (col_id row, client_rating row)) (resp_data r))
     (search null_rated_db no_query) = Inr [(2, None), (1, Some 5)] \<and>
   map_sum id (\<lambda>r. sorted_wrt precedes (resp_data r)) (listing null_rated_db no_query) = Inr False \<and>
   map_sum id (\<lambda>r. sorted_wrt precedes (resp_data r)) (search null_rated_db no_query) = Inr False"
  by code_simp

text \<open>
  C7. In every successful Search response, \<open>total\<close> is the number of rows of the table for
  which the WHERE clause of the data query, with the data query's parameters, is true; and
  \<open>data\<close> is a slice of exactly those rows in order.
\<close>

theorem search_total_counts_filtered_rows:
  assumes "search d q = Inr r"
  shows "\<exists>bs. bind_all (data_params q) (whereConditions (build_filters q)) = Inr bs \<and>
           resp_total r = length (filter (\<lambda>row. row_matches bs row = Inr True) (recipes d)) \<and>
           (\<exists>l k. resp_data r =
              take l (drop k (order_by (filter (\<lambda>row. row_matches bs row = Inr True) (recipes d)))))"
  using search_Inr [OF assms] by blast

theorem search_total_counts_filtered_rows_witness:
  "\<exists>r. search sample_db (no_query\<lparr>q_title := Some ''pie'', q_rating := Some ''>=4.5''\<rparr>) = Inr r \<and>
        resp_total r = 2 \<and>
        (\<exists>bs. resp_total r =
           length (filter (\<lambda>row. row_matches bs row = Inr True) (recipes sample_db)))"
proof -
  let ?q = "no_query\<lparr>q_title := Some ''pie'', q_rating := Some ''>=4.5''\<rparr>"
  have "map_sum id resp_total (search sample_db ?q) = Inr 2"
    by code_simp
  then obtain r where r: "search sample_db ?q = Inr r" "resp_total r = 2"
    by (cases "search sample_db ?q") auto
  from search_total_counts_filtered_rows [OF r(1)] r show ?thesis
    by blast
qed

end
